theory Spec2Isabelle
  imports Complex_Main
begin

section \<open>Tensors\<close>

text \<open>
  A numpy array or torch tensor is a shape together with an accessor from a full index
  (one position per axis) to the entry stored there. Entries of floating-point tensors
  are modelled by exact rationals; the operations of the pipeline whose results depend on
  rounding (bicubic resampling, the network's forward pass, softmax) are parameters of the
  model and are never computed here.
\<close>

record 'a tensor =
  shape :: "nat list"
  elem :: "nat list \<Rightarrow> 'a"

text \<open>An index is valid for a shape when it has one in-range position per axis.\<close>

fun valid_index :: "nat list \<Rightarrow> nat list \<Rightarrow> bool" where
  "valid_index [] [] = True"
| "valid_index (d # ds) (i # is) = (i < d \<and> valid_index ds is)"
| "valid_index _ _ = False"

text \<open>\<^verbatim>\<open>torch.tensor([a])\<close>: a new leading axis of size one.\<close>

definition tensor_of_singleton :: "'a tensor \<Rightarrow> 'a tensor" where
  "tensor_of_singleton a = \<lparr>shape = 1 # shape a, elem = (\<lambda>idx. elem a (tl idx))\<rparr>"

text \<open>
  \<^verbatim>\<open>t.permute(dims)\<close>: axis \<open>k\<close> of the result is axis \<open>dims ! k\<close> of \<open>t\<close>, so the
  entry at \<open>idx\<close> is the entry of \<open>t\<close> whose position on axis \<open>dims ! k\<close> is \<open>idx ! k\<close>.
\<close>

primrec position_of :: "nat \<Rightarrow> nat list \<Rightarrow> nat" where
  "position_of j [] = 0"
| "position_of j (d # ds) = (if d = j then 0 else Suc (position_of j ds))"

definition permute :: "nat list \<Rightarrow> 'a tensor \<Rightarrow> 'a tensor" where
  "permute dims t =
     \<lparr>shape = map (\<lambda>d. shape t ! d) dims,
      elem = (\<lambda>idx. elem t (map (\<lambda>j. idx ! position_of j dims) [0..<length dims]))\<rparr>"

text \<open>\<^verbatim>\<open>t.float()\<close> on an integer tensor.\<close>

definition to_float :: "int tensor \<Rightarrow> rat tensor" where
  "to_float t = \<lparr>shape = shape t, elem = (\<lambda>idx. rat_of_int (elem t idx))\<rparr>"

text \<open>
  \<^verbatim>\<open>torch.argmax(t, dim=1, keepdim=True)\<close>: axis 1 is reduced to size one and holds the
  index of the first maximal entry along it. A tensor without axis 1, or with an empty
  axis 1, raises.
\<close>

fun argmax_from :: "nat \<Rightarrow> 'a::linorder \<Rightarrow> nat \<Rightarrow> 'a list \<Rightarrow> nat" where
  "argmax_from best bv i [] = best"
| "argmax_from best bv i (x # xs) =
     (if bv < x then argmax_from i x (Suc i) xs else argmax_from best bv (Suc i) xs)"

definition argmax_list :: "'a::linorder list \<Rightarrow> nat" where
  "argmax_list xs = (case xs of [] \<Rightarrow> 0 | x # rest \<Rightarrow> argmax_from 0 x 1 rest)"

datatype error =
  ConfigLoadError | ModelBuildError | WeightLoadError | ForwardError
  | ValueError | AttributeError | TypeError | IndexError | ZeroDivisionError

definition argmax_dim1_keepdim :: "'a::linorder tensor \<Rightarrow> error + int tensor" where
  "argmax_dim1_keepdim t =
     (if length (shape t) < 2 then Inl IndexError
      else if shape t ! 1 = 0 then Inl IndexError
      else Inr \<lparr>shape = (shape t)[1 := 1],
                elem = (\<lambda>idx. int (argmax_list
                          (map (\<lambda>c. elem t (idx[1 := c])) [0..<shape t ! 1])))\<rparr>)"

text \<open>
  \<^verbatim>\<open>transforms.Resize(size=(h, w), interpolation=NEAREST)\<close> on a tensor: the last two
  axes get sizes \<open>h\<close> and \<open>w\<close>; output position \<open>i\<close> of an axis resized from \<open>n_in\<close> to
  \<open>n_out\<close> reads input position \<open>min (i * n_in div n_out) (n_in - 1)\<close>.
\<close>

definition nearest_src :: "nat \<Rightarrow> nat \<Rightarrow> nat \<Rightarrow> nat" where
  "nearest_src n_in n_out i = min (i * n_in div n_out) (n_in - 1)"

definition resize_nearest :: "nat \<Rightarrow> nat \<Rightarrow> 'a tensor \<Rightarrow> 'a tensor" where
  "resize_nearest h w t =
     (let r = length (shape t); ih = shape t ! (r - 2); iw = shape t ! (r - 1)
      in \<lparr>shape = (shape t)[r - 2 := h, r - 1 := w],
          elem = (\<lambda>idx. elem t (idx[r - 2 := nearest_src ih h (idx ! (r - 2)),
                                     r - 1 := nearest_src iw w (idx ! (r - 1))]))\<rparr>)"

text \<open>
  \<^verbatim>\<open>t.squeeze()\<close> without an axis argument: every axis of size one is removed. The
  entry at an index of the result is the entry of \<open>t\<close> at that index with a zero put back
  on each removed axis.
\<close>

fun unsqueeze_index :: "nat list \<Rightarrow> nat list \<Rightarrow> nat list" where
  "unsqueeze_index [] idx = []"
| "unsqueeze_index (d # ds) idx =
     (if d = 1 then 0 # unsqueeze_index ds idx
      else (case idx of [] \<Rightarrow> [] | i # rest \<Rightarrow> i # unsqueeze_index ds rest))"

definition squeeze :: "'a tensor \<Rightarrow> 'a tensor" where
  "squeeze t = \<lparr>shape = filter (\<lambda>d. d \<noteq> 1) (shape t),
                elem = (\<lambda>idx. elem t (unsqueeze_index (shape t) idx))\<rparr>"

text \<open>
  Modelled from the spec: \<open>torch.softmax(pred, dim=1)\<close> is code of the tensor library and
  is not among the source files; the specification (4.3, step 5) says it turns the logits
  into class probabilities over the class axis. That is the function
  \<open>exp x / (\<Sum>y. exp y)\<close>, the sum running along axis 1 with all other index positions
  fixed, computed here in exact arithmetic. The float32 kernel the run calls is the
  parameter \<open>softmax_dim1\<close> of the world below.
\<close>

definition softmax_dim1_exact :: "real tensor \<Rightarrow> real tensor" where
  "softmax_dim1_exact t =
     t\<lparr>elem := (\<lambda>idx. exp (elem t idx)
                       / (\<Sum>c\<leftarrow>[0..<shape t ! 1]. exp (elem t (idx[1 := c]))))\<rparr>"

section \<open>Normalize\<close>

text \<open>
  \<^verbatim>\<open>
  def __call__(self, image):
      for t, m, s in zip(image, self.mean, self.std):
          t.sub_(m).div_(s)
      return image
  \<close>
  Iterating over a tensor yields its slices along axis 0, and \<open>zip\<close> stops with the
  shortest of its arguments. Slice \<open>i\<close> is a view, so the in-place update changes every
  entry of the image whose first index position is \<open>i\<close>. A tensor without axes cannot be
  iterated over.
\<close>

definition Normalize_call :: "rat list \<Rightarrow> rat list \<Rightarrow> rat tensor \<Rightarrow> error + rat tensor" where
  "Normalize_call mean std img =
     (case shape img of
        [] \<Rightarrow> Inl TypeError
      | n # _ \<Rightarrow>
          (let iterations = zip [0..<n] (zip mean std)
           in Inr (img\<lparr>elem := (\<lambda>idx.
                 (case idx of
                    [] \<Rightarrow> elem img idx
                  | i # _ \<Rightarrow>
                      (case map_of iterations i of
                         None \<Rightarrow> elem img idx
                       | Some (m, s) \<Rightarrow> (elem img idx - m) / s)))\<rparr>)))"

definition imagenet_mean :: "rat list" where
  "imagenet_mean = [123.675, 116.280, 103.530]"

definition imagenet_std :: "rat list" where
  "imagenet_std = [58.395, 57.120, 57.375]"

section \<open>Configuration, model handle and process state\<close>

text \<open>
  The configuration is the \<open>ConfigDict\<close> read from the YAML file. Only the four keys
  the process reads are kept, and the file is taken to carry all of them;
  \<open>pretrained_path\<close> is \<open>None\<close> for a YAML null.
\<close>

record config =
  img_size :: nat
  n_classes :: nat
  class_names :: "string list"
  pretrained_path :: "string option"

text \<open>
  The network object held in \<open>self.model\<close>. The network itself is an external
  collaborator; the handle records what the process did to it: \<open>ident\<close> is the identity of
  the Python object (every construction allocates a new one), \<open>built_from\<close> the
  configuration given to the constructor, \<open>weights\<close> the file whose state dictionary was
  loaded (if any), \<open>eval_mode\<close> whether \<open>eval()\<close> was called.
\<close>

record model_handle =
  ident :: nat
  built_from :: config
  on_cuda :: bool
  weights :: "string option"
  eval_mode :: bool

text \<open>
  The legend is the white 1000 x 1000 canvas and, in drawing order, the \<open>cv2\<close> calls made
  on it.
\<close>

datatype draw_op =
  is_Rectangle: Rectangle "int \<times> int" "int \<times> int" "int list" int
  | PutText string "int \<times> int" int "int list" int

record legend_image =
  img_h :: nat
  img_w :: nat
  fill_value :: int
  ops :: "draw_op list"

text \<open>
  The state a run reads and writes: the attributes of the process object, the parameter
  object (\<open>configFile\<close>, \<open>modelFile\<close>, \<open>update\<close>), the three output slots with the colour
  map attached to output 1, the state of Python's global \<open>random\<close> generator, and the
  number of network objects allocated so far.
\<close>

record 'g state =
  model :: "model_handle option"
  cfg :: "config option"
  colors :: "int list list option"
  classes :: "string list option"
  configFile :: string
  modelFile :: string
  update :: bool
  mask_output :: "int tensor option"
  color_map_output :: "int list list option"
  forwarded_output :: "int tensor option"
  graph_output :: "legend_image option"
  rng :: 'g
  next_ident :: nat

text \<open>
  The world outside the file: the file system, the network library, the floating-point
  kernels and Python's \<open>random\<close> module. \<open>open_yaml\<close> is \<open>None\<close> when opening or parsing
  the file raises; \<open>ViT_seg_constructs\<close> and \<open>load_state_dict_succeeds\<close> tell whether the
  constructor and the weight loading return rather than raise; \<open>forward\<close> is \<open>None\<close> when
  the network call raises; \<open>randint_0_255\<close> is \<open>random.randint(0, 255)\<close>, returning the
  drawn number and the generator's next state.
\<close>

record 'g env =
  open_yaml :: "string \<Rightarrow> config option"
  ViT_seg_constructs :: "config \<Rightarrow> bool"
  cuda_is_available :: bool
  isfile :: "string \<Rightarrow> bool"
  load_state_dict_succeeds :: "config \<Rightarrow> string \<Rightarrow> bool"
  resize_bicubic :: "nat \<Rightarrow> nat \<Rightarrow> rat tensor \<Rightarrow> rat tensor"
  forward :: "model_handle \<Rightarrow> rat tensor \<Rightarrow> rat tensor option"
  softmax_dim1 :: "rat tensor \<Rightarrow> rat tensor"
  random_seed :: "int \<Rightarrow> 'g"
  randint_0_255 :: "'g \<Rightarrow> int \<times> 'g"

section \<open>Colour map and legend\<close>

text \<open>
  \<^verbatim>\<open>
  for i in range(n - 1):
      self.colors.append([random.randint(0, 255), random.randint(0, 255),
                          random.randint(0, 255), 255])
  \<close>
\<close>

fun append_colors :: "'g env \<Rightarrow> nat \<Rightarrow> 'g \<Rightarrow> int list list \<times> 'g" where
  "append_colors E 0 g = ([], g)"
| "append_colors E (Suc k) g =
     (let (r, g1) = randint_0_255 E g;
          (gr, g2) = randint_0_255 E g1;
          (b, g3) = randint_0_255 E g2;
          (rest, g4) = append_colors E k g3
      in ([r, gr, b, 255] # rest, g4))"

definition build_colors :: "'g env \<Rightarrow> nat \<Rightarrow> 'g \<Rightarrow> int list list \<times> 'g" where
  "build_colors E n g =
     (let (drawn, g') = append_colors E (n - 1) g in ([0, 0, 0] # drawn, g'))"

text \<open>The \<open>k\<close>-th number (from 0) that the generator in state \<open>g\<close> hands out.\<close>

primrec nth_draw :: "'g env \<Rightarrow> 'g \<Rightarrow> nat \<Rightarrow> int" where
  "nth_draw E g 0 = fst (randint_0_255 E g)"
| "nth_draw E g (Suc k) = nth_draw E (snd (randint_0_255 E g)) k"

text \<open>
  \<^verbatim>\<open>
  for i, c in enumerate(self.colors):
      legend = cv2.rectangle(legend, (offset_x, i * rectangle_height + offset_y + interline),
                             (offset_x + rectangle_width, (i + 1) * rectangle_height + offset_y - interline),
                             color=c, thickness=-1)
      legend = cv2.putText(legend, self.classes[i], (3*offset_x+rectangle_width,
                           (i+1)*rectangle_height + offset_y - interline - rectangle_height//3),
                           font, fontscale, color=[0,0,0], thickness=thickness)
  \<close>
  The loop, from class index \<open>i\<close> on; \<open>self.classes[i]\<close> raises past the end of the names.
\<close>

fun legend_rows :: "int \<Rightarrow> string list \<Rightarrow> nat \<Rightarrow> int list list \<Rightarrow> error + draw_op list" where
  "legend_rows rh names i [] = Inr []"
| "legend_rows rh names i (c # cs) =
     (if length names \<le> i then Inl IndexError
      else (case legend_rows rh names (Suc i) cs of
              Inl e \<Rightarrow> Inl e
            | Inr rest \<Rightarrow>
                Inr (Rectangle (10, int i * rh + 5 + 5) (10 + 1000 div 3, (int i + 1) * rh + 5 - 5) c (- 1)
                     # PutText (names ! i)
                         (3 * 10 + 1000 div 3, (int i + 1) * rh + 5 - 5 - rh div 3) 1 [0, 0, 0] 2
                     # rest)))"

definition draw_legend :: "int list list option \<Rightarrow> string list option \<Rightarrow> error + legend_image" where
  "draw_legend cols names =
     (case cols of
        None \<Rightarrow> Inl TypeError
      | Some cs \<Rightarrow>
          if length cs = 0 then Inl ZeroDivisionError
          else
            (let rectangle_height = min 100 (1000 div int (length cs))
             in (case names of
                   None \<Rightarrow> Inl TypeError
                 | Some ns \<Rightarrow>
                     (case legend_rows rectangle_height ns 0 cs of
                        Inl e \<Rightarrow> Inl e
                      | Inr os \<Rightarrow>
                          Inr \<lparr>img_h = 1000, img_w = 1000, fill_value = 255, ops = os\<rparr>))))"





section \<open>The run\<close>

text \<open>
  A Python exception leaves every assignment made before it in place, so each part of
  \<open>run\<close> returns the exception raised (if any) together with the state reached.
\<close>

text \<open>
  \<^verbatim>\<open>
  if (self.cfg is None or param.update) and param.configFile != "":
      with open(param.configFile, 'r') as file:
          str = yaml.load(file, Loader=yaml.Loader)
          self.cfg = ConfigDict(str)
          self.classes = self.cfg.class_names
  \<close>
\<close>

definition load_config_step :: "'g env \<Rightarrow> 'g state \<Rightarrow> error option \<times> 'g state" where
  "load_config_step E s =
     (if (cfg s = None \<or> update s) \<and> configFile s \<noteq> []
      then (case open_yaml E (configFile s) of
              None \<Rightarrow> (Some ConfigLoadError, s)
            | Some c \<Rightarrow> (None, s\<lparr>cfg := Some c, classes := Some (class_names c)\<rparr>))
      else (None, s))"

text \<open>
  \<^verbatim>\<open>
  if (self.model is None or param.update) and self.cfg is not None:
      self.model = ViT_seg(self.cfg, img_size=self.cfg.img_size, num_classes=self.cfg.n_classes)
      if torch.cuda.is_available():
          self.model.cuda()
      if os.path.isfile(param.modelFile):
          self.model.load_state_dict(torch.load(param.modelFile))
      self.model.eval()
  \<close>
  The new network is assigned to \<open>self.model\<close> before its weights are loaded.
\<close>

definition build_model_step :: "'g env \<Rightarrow> 'g state \<Rightarrow> error option \<times> 'g state" where
  "build_model_step E s =
     (case cfg s of
        None \<Rightarrow> (None, s)
      | Some c \<Rightarrow>
          if model s = None \<or> update s then
            (if ViT_seg_constructs E c then
               (let m0 = \<lparr>ident = next_ident s, built_from = c, on_cuda = False,
                          weights = None, eval_mode = False\<rparr>;
                    m1 = (if cuda_is_available E then m0\<lparr>on_cuda := True\<rparr> else m0);
                    s1 = s\<lparr>model := Some m1, next_ident := Suc (next_ident s)\<rparr>
                in if isfile E (modelFile s) then
                     (if load_state_dict_succeeds E c (modelFile s)
                      then (None, s1\<lparr>model :=
                              Some (m1\<lparr>weights := Some (modelFile s), eval_mode := True\<rparr>)\<rparr>)
                      else (Some WeightLoadError, s1))
                   else (None, s1\<lparr>model := Some (m1\<lparr>eval_mode := True\<rparr>)\<rparr>))
             else (Some ModelBuildError, s))
          else (None, s))"

text \<open>
  Lines 131 to 152, the part of \<open>run\<close> the specification calls \<open>infer\<close>:
  \<^verbatim>\<open>
  h, w, c = np.shape(srcImage)
  downsample_img = transforms.Resize(size=(self.cfg.img_size, self.cfg.img_size), interpolation=BICUBIC)
  upsample_pred = transforms.Resize(size=(h,w), interpolation=NEAREST)
  srcImage = torch.tensor([srcImage]).permute(0,3,1,2).float()
  srcImage = downsample_img(srcImage)
  if self.cfg.pretrained_path is not None:
      srcImage = Normalize(mean=mean,std=std)(srcImage)
  pred = self.model(srcImage)
  pred = torch.argmax(torch.softmax(pred, dim=1), dim=1, keepdim=True)
  pred = upsample_pred(pred)
  pred = pred.squeeze()
  \<close>
  The tuple assignment raises ValueError unless the image has exactly three axes; it is
  the only check made on the image.
\<close>

definition infer :: "'g env \<Rightarrow> model_handle \<Rightarrow> config option \<Rightarrow> int tensor \<Rightarrow> error + int tensor" where
  "infer E m cfo srcImage =
     (case shape srcImage of
        [h, w, c] \<Rightarrow>
          (case cfo of
             None \<Rightarrow> Inl AttributeError
           | Some cf \<Rightarrow>
               (let x0 = to_float (permute [0, 3, 1, 2] (tensor_of_singleton srcImage));
                    x1 = resize_bicubic E (img_size cf) (img_size cf) x0
                in (case (if pretrained_path cf \<noteq> None
                          then Normalize_call imagenet_mean imagenet_std x1 else Inr x1) of
                      Inl e \<Rightarrow> Inl e
                    | Inr x2 \<Rightarrow>
                        (case forward E m x2 of
                           None \<Rightarrow> Inl ForwardError
                         | Some logits \<Rightarrow>
                             (case argmax_dim1_keepdim (softmax_dim1 E logits) of
                                Inl e \<Rightarrow> Inl e
                              | Inr pred \<Rightarrow> Inr (squeeze (resize_nearest h w pred)))))))
      | _ \<Rightarrow> Inl ValueError)"

text \<open>
  \<^verbatim>\<open>
  if self.colors == None or param.update:
      n = len(self.classes)
      self.colors = [[0, 0, 0]]
      for i in range(n - 1): ...
      self.setOutputColorMap(1, 0, self.colors)
  \<close>
\<close>

definition color_map_step :: "'g env \<Rightarrow> 'g state \<Rightarrow> error option \<times> 'g state" where
  "color_map_step E s =
     (if colors s = None \<or> update s then
        (case classes s of
           None \<Rightarrow> (Some TypeError, s)
         | Some ns \<Rightarrow>
             (let (cs, g') = build_colors E (length ns) (rng s)
              in (None, s\<lparr>colors := Some cs, rng := g', color_map_output := Some cs\<rparr>)))
      else (None, s))"

text \<open>The body of \<^verbatim>\<open>if self.model is not None and srcImage is not None:\<close>.\<close>

definition output_step ::
  "'g env \<Rightarrow> model_handle \<Rightarrow> int tensor \<Rightarrow> 'g state \<Rightarrow> error option \<times> 'g state" where
  "output_step E m srcImage s =
     (case infer E m (cfg s) srcImage of
        Inl e \<Rightarrow> (Some e, s)
      | Inr dstImage \<Rightarrow>
          (case color_map_step E (s\<lparr>mask_output := Some dstImage\<rparr>) of
             (Some e, s1) \<Rightarrow> (Some e, s1)
           | (None, s1) \<Rightarrow>
               (let s2 = s1\<lparr>forwarded_output := Some srcImage\<rparr>
                in (case draw_legend (colors s2) (classes s2) of
                      Inl e \<Rightarrow> (Some e, s2)
                    | Inr legend \<Rightarrow>
                        (None, s2\<lparr>graph_output := Some legend, update := False\<rparr>)))))"

definition run :: "'g env \<Rightarrow> int tensor option \<Rightarrow> 'g state \<Rightarrow> error option \<times> 'g state" where
  "run E srcImage s =
     (case load_config_step E (s\<lparr>rng := random_seed E 10\<rparr>) of
        (Some e, s1) \<Rightarrow> (Some e, s1)
      | (None, s1) \<Rightarrow>
          (case build_model_step E s1 of
             (Some e, s2) \<Rightarrow> (Some e, s2)
           | (None, s2) \<Rightarrow>
               (case model s2 of
                  None \<Rightarrow> (None, s2)
                | Some m \<Rightarrow>
                    (case srcImage of
                       None \<Rightarrow> (None, s2)
                     | Some img \<Rightarrow> output_step E m img s2))))"

section \<open>A concrete world and concrete inputs\<close>

text \<open>
  The state of a process object right after \<open>__init__\<close>, with the parameters' default
  values.
\<close>

definition initial_state :: "nat state" where
  "initial_state =
     \<lparr>model = None, cfg = None, colors = None, classes = None,
      configFile = [], modelFile = [], update = False,
      mask_output = None, color_map_output = None, forwarded_output = None,
      graph_output = None, rng = 0, next_ident = 0\<rparr>"

definition example_cfg :: config where
  "example_cfg =
     \<lparr>img_size = 2, n_classes = 3, class_names = [''bg'', ''cat'', ''dog''],
      pretrained_path = Some ''imagenet21k.npz''\<rparr>"

definition other_cfg :: config where
  "other_cfg =
     \<lparr>img_size = 4, n_classes = 2, class_names = [''bg'', ''road''],
      pretrained_path = None\<rparr>"

text \<open>
  A world with two configuration files and one loadable weight file. Its network returns
  logits of the shape its configuration declares; its resampling and softmax kernels are
  stand-ins that keep the shapes of the real ones.
\<close>

definition example_env :: "nat env" where
  "example_env =
     \<lparr>open_yaml = (\<lambda>p. if p = ''a.yaml'' then Some example_cfg
                         else if p = ''b.yaml'' then Some other_cfg else None),
      ViT_seg_constructs = (\<lambda>c. 0 < n_classes c),
      cuda_is_available = False,
      isfile = (\<lambda>p. p = ''weights.pth'' \<or> p = ''broken.pth''),
      load_state_dict_succeeds = (\<lambda>c p. p = ''weights.pth''),
      resize_bicubic = (\<lambda>a b t. resize_nearest a b t),
      forward = (\<lambda>m x. Some \<lparr>shape = [1, n_classes (built_from m),
                                        img_size (built_from m), img_size (built_from m)],
                               elem = (\<lambda>idx. rat_of_nat ((idx ! 1 * (idx ! 2 + 1) + idx ! 3) mod 3))\<rparr>),
      softmax_dim1 = (\<lambda>t. t),
      random_seed = (\<lambda>n. nat \<bar>n\<bar>),
      randint_0_255 = (\<lambda>g. (int ((g * 37 + 11) mod 256), Suc g))\<rparr>"

definition example_model :: model_handle where
  "example_model =
     \<lparr>ident = 0, built_from = example_cfg, on_cuda = False,
      weights = Some ''weights.pth'', eval_mode = True\<rparr>"

text \<open>
  Images as the host hands them over, height x width x channels: a white image with the
  given shape, and a 2 x 2 image of four channels whose entries are all 1000.
\<close>

definition white_image :: "nat list \<Rightarrow> int tensor" where
  "white_image shp = \<lparr>shape = shp, elem = (\<lambda>idx. 255)\<rparr>"

definition four_channel_image :: "int tensor" where
  "four_channel_image = \<lparr>shape = [2, 2, 4], elem = (\<lambda>idx. 1000)\<rparr>"

text \<open>
  A white image resized to 2 x 2, as \<open>Normalize\<close> receives it: a batch with the axes
  batch x channel x row x column, every entry 255.
\<close>

definition white_batch :: "rat tensor" where
  "white_batch = \<lparr>shape = [1, 3, 2, 2], elem = (\<lambda>idx. 255)\<rparr>"

text \<open>
  The normalization as the specification words it: channel \<open>c\<close> of every pixel becomes
  \<open>(x - mean ! c) / std ! c\<close>, the channel being axis 1 of the batch.
\<close>

definition normalize_per_channel :: "rat list \<Rightarrow> rat list \<Rightarrow> rat tensor \<Rightarrow> rat tensor" where
  "normalize_per_channel mean std img =
     img\<lparr>elem := (\<lambda>idx. (elem img idx - mean ! (idx ! 1)) / std ! (idx ! 1))\<rparr>"

text \<open>
  Two runs of a process on a 3 x 3 image: the state after the first run with
  \<open>a.yaml\<close> and \<open>weights.pth\<close>, and a state in which a valid model is cached and a
  reload is requested with a weight file that exists but does not fit the network.
\<close>

definition state_after_first_run :: "nat state" where
  "state_after_first_run =
     snd (run example_env (Some (white_image [3, 3, 3]))
            (initial_state\<lparr>configFile := ''a.yaml'', modelFile := ''weights.pth''\<rparr>))"

definition reload_with_broken_weights :: "nat state" where
  "reload_with_broken_weights =
     initial_state\<lparr>model := Some example_model, cfg := Some example_cfg,
       classes := Some (class_names example_cfg), configFile := ''a.yaml'',
       modelFile := ''broken.pth'', update := True, next_ident := 1\<rparr>"

section \<open>Facts about the tensor operations\<close>

lemma argmax_from_bound: "best < i \<Longrightarrow> argmax_from best bv i xs < i + length xs"
proof (induction xs arbitrary: best bv i)
  case Nil
  then show ?case by simp
next
  case (Cons x xs)
  have a: "argmax_from i x (Suc i) xs < Suc i + length xs"
    using Cons.IH [of i "Suc i" x] by simp
  have b: "argmax_from best bv (Suc i) xs < Suc i + length xs"
    using Cons.IH [of best "Suc i" bv] Cons.prems by simp
  show ?case using a b by simp
qed

lemma argmax_list_bound: "xs \<noteq> [] \<Longrightarrow> argmax_list xs < length xs"
  using argmax_from_bound [of 0 1 _ "tl xs"]
  by (cases xs) (auto simp: argmax_list_def)

lemma argmax_dim1_keepdim_range:
  assumes "argmax_dim1_keepdim t = Inr p"
  shows "0 \<le> elem p idx \<and> elem p idx < int (shape t ! 1)"
  using assms argmax_list_bound [of "map (\<lambda>c. elem t (idx[1 := c])) [0..<shape t ! 1]"]
  by (auto simp: argmax_dim1_keepdim_def split: if_splits)

lemma argmax_dim1_keepdim_shape:
  "argmax_dim1_keepdim t = Inr p \<Longrightarrow> shape p = (shape t)[1 := 1]"
  by (auto simp: argmax_dim1_keepdim_def split: if_splits)

lemma Normalize_call_shape:
  "Normalize_call mean std img = Inr r \<Longrightarrow> shape r = shape img"
  by (auto simp: Normalize_call_def split: list.splits)

lemma Normalize_call_returns:
  "shape img \<noteq> [] \<Longrightarrow> \<exists>r. Normalize_call mean std img = Inr r"
  by (auto simp: Normalize_call_def split: list.splits)

lemma Normalize_call_batch_of_one:
  assumes "shape img = 1 # rest"
  shows "Normalize_call imagenet_mean imagenet_std img =
           Inr (img\<lparr>elem := (\<lambda>idx. case idx of [] \<Rightarrow> elem img idx
                  | i # _ \<Rightarrow> if i = 0 then (elem img idx - 123.675) / 58.395 else elem img idx)\<rparr>)"
  using assms
  by (auto simp: Normalize_call_def imagenet_mean_def imagenet_std_def fun_eq_iff split: list.splits)

lemma argmax_from_map:
  "strict_mono f \<Longrightarrow> argmax_from best (f bv) i (map f xs) = argmax_from best bv i xs"
  by (induction xs arbitrary: best bv i) (simp_all add: strict_mono_less)

lemma argmax_list_map: "strict_mono f \<Longrightarrow> argmax_list (map f xs) = argmax_list xs"
  by (cases xs) (simp_all add: argmax_list_def argmax_from_map)

lemma sum_list_exp_nonneg: "0 \<le> (\<Sum>y\<leftarrow>xs. exp (y::real))"
  by (induction xs) simp_all

lemma sum_list_exp_pos: "xs \<noteq> [] \<Longrightarrow> 0 < (\<Sum>y\<leftarrow>xs. exp (y::real))"
proof (cases xs)
  case Nil
  assume "xs \<noteq> []"
  with Nil show ?thesis by simp
next
  case (Cons x rest)
  have "0 < exp x + (\<Sum>y\<leftarrow>rest. exp y)"
    using sum_list_exp_nonneg [of rest] exp_gt_zero [of x] by linarith
  then show ?thesis using Cons by simp
qed

section \<open>Softmax and arg-max\<close>

text \<open>
  C6. For every tensor of logits, taking the arg-max over the class axis after the softmax
  over that axis gives the same result as taking the arg-max of the logits directly: the
  same error for a tensor without a class axis or with an empty one, and otherwise the
  same tensor of class indices. Softmax is the exact function here; for each pixel it is
  strictly increasing in the logit, so the first maximal entry stays where it is.
\<close>

theorem softmax_keeps_argmax:
  "argmax_dim1_keepdim (softmax_dim1_exact t) = argmax_dim1_keepdim t"
proof (cases "length (shape t) < 2 \<or> shape t ! 1 = 0")
  case True
  then show ?thesis
    by (auto simp: argmax_dim1_keepdim_def softmax_dim1_exact_def)
next
  case False
  let ?C = "shape t ! 1"
  have pos: "0 < ?C" using False by simp
  have row: "argmax_list (map (\<lambda>c. elem (softmax_dim1_exact t) (idx[1 := c])) [0..<?C])
           = argmax_list (map (\<lambda>c. elem t (idx[1 := c])) [0..<?C])" for idx
  proof -
    let ?xs = "map (\<lambda>c. elem t (idx[1 := c])) [0..<?C]"
    let ?Z = "\<Sum>y\<leftarrow>?xs. exp y"
    have ne: "?xs \<noteq> []" using pos by simp
    have z: "0 < ?Z" using sum_list_exp_pos [OF ne] .
    have mono: "strict_mono (\<lambda>x. exp x / ?Z)"
      using z by (simp add: strict_mono_def divide_strict_right_mono)
    have eq: "map (\<lambda>c. elem (softmax_dim1_exact t) (idx[1 := c])) [0..<?C]
            = map (\<lambda>x. exp x / ?Z) ?xs"
      by (simp add: softmax_dim1_exact_def o_def)
    show ?thesis
      unfolding eq by (rule argmax_list_map [OF mono])
  qed
  show ?thesis
    using False row by (simp add: argmax_dim1_keepdim_def softmax_dim1_exact_def [where t = t, THEN arg_cong [where f = shape]] fun_eq_iff)
qed

section \<open>Normalization\<close>

text \<open>
  C1. When the configuration's pretrained path is set, the resized image should be
  normalized per channel: channel \<open>c\<close> of every pixel becomes \<open>(x - mean ! c) / std ! c\<close>
  with the means 123.675, 116.280, 103.530 and the standard deviations 58.395, 57.120,
  57.375. The tensor handed to \<open>Normalize\<close> has the axes batch x channel x row x column,
  and the loop of \<open>__call__\<close> runs over its first axis, the batch of size one: it makes a
  single iteration, which applies the first mean and the first standard deviation to all
  three channels (\<open>Normalize_call_batch_of_one\<close>). On the pixel (255, 255, 255) in row 0,
  column 0 of a white image the code yields 515/229 on every channel, where per-channel
  normalization yields 515/229, 17/7 and 66/25.
\<close>

theorem Normalize_call_first_mean_on_every_channel:
  "(case Normalize_call imagenet_mean imagenet_std white_batch of
      Inl e \<Rightarrow> []
    | Inr r \<Rightarrow> map (elem r) [[0, 0, 0, 0], [0, 1, 0, 0], [0, 2, 0, 0]])
     = [515 / 229, 515 / 229, 515 / 229]
   \<and> map (elem (normalize_per_channel imagenet_mean imagenet_std white_batch))
       [[0, 0, 0, 0], [0, 1, 0, 0], [0, 2, 0, 0]]
     = [515 / 229, 17 / 7, 66 / 25]"
  by (simp add: Normalize_call_def normalize_per_channel_def white_batch_def
      imagenet_mean_def imagenet_std_def)


section \<open>The label map\<close>

text \<open>
  C4. For an image of height \<open>H\<close> and width \<open>W\<close> the label map should have shape
  \<open>(H, W)\<close>. The prediction of shape \<open>(1, 1, H, W)\<close> is reduced by \<open>squeeze()\<close>, which
  removes every axis of size one, so the label map of an image that is one pixel high or
  one pixel wide loses that axis too: a 1 x 5 image gets a label map of shape \<open>(5)\<close>.
  In general the shape is \<open>(H, W)\<close> without its entries equal to 1 (\<open>infer_shape\<close>).
\<close>

theorem infer_squeezes_height_one:
  "shape (white_image [1, 5, 3]) = [1, 5, 3]
   \<and> map_sum id shape (infer example_env example_model (Some example_cfg) (white_image [1, 5, 3]))
       = Inr [5]"
  by (simp add: infer_def white_image_def example_env_def example_model_def example_cfg_def
      to_float_def permute_def tensor_of_singleton_def resize_nearest_def Normalize_call_def
      argmax_dim1_keepdim_def squeeze_def Let_def)

lemma infer_result:
  assumes img: "shape srcImage = [h, w, c]"
    and bic: "\<forall>a b n k y x t. shape t = [n, k, y, x] \<longrightarrow> shape (resize_bicubic E a b t) = [n, k, a, b]"
    and fwd: "\<forall>x. \<exists>l. forward E m x = Some l \<and> shape l = [1, n_classes cf, img_size cf, img_size cf]"
    and sm: "\<forall>t. shape (softmax_dim1 E t) = shape t"
    and nc: "1 \<le> n_classes cf"
  shows "\<exists>x l p. forward E m x = Some l \<and> argmax_dim1_keepdim (softmax_dim1 E l) = Inr p
           \<and> shape p = [1, 1, img_size cf, img_size cf]
           \<and> shape (softmax_dim1 E l) ! 1 = n_classes cf
           \<and> infer E m (Some cf) srcImage = Inr (squeeze (resize_nearest h w p))"
proof -
  let ?x0 = "to_float (permute [0, 3, 1, 2] (tensor_of_singleton srcImage))"
  let ?x1 = "resize_bicubic E (img_size cf) (img_size cf) ?x0"
  have s0: "shape ?x0 = [1, c, h, w]"
    by (simp add: to_float_def permute_def tensor_of_singleton_def img)
  have s1: "shape ?x1 = [1, c, img_size cf, img_size cf]"
    using bic s0 by blast
  obtain x2 where x2: "(if pretrained_path cf \<noteq> None
      then Normalize_call imagenet_mean imagenet_std ?x1 else Inr ?x1) = Inr x2"
    using Normalize_call_returns [of ?x1 imagenet_mean imagenet_std] s1
    by (cases "pretrained_path cf") auto
  obtain l where l: "forward E m x2 = Some l"
    and sl: "shape l = [1, n_classes cf, img_size cf, img_size cf]"
    using fwd by blast
  have ssm: "shape (softmax_dim1 E l) = [1, n_classes cf, img_size cf, img_size cf]"
    using sm sl by simp
  obtain p where p: "argmax_dim1_keepdim (softmax_dim1 E l) = Inr p"
    using ssm nc by (auto simp: argmax_dim1_keepdim_def)
  have sp: "shape p = [1, 1, img_size cf, img_size cf]"
    using argmax_dim1_keepdim_shape [OF p] ssm by simp
  have c1: "shape (softmax_dim1 E l) ! 1 = n_classes cf"
    using ssm by simp
  have r: "infer E m (Some cf) srcImage = Inr (squeeze (resize_nearest h w p))"
    using x2 l p by (auto simp: infer_def img Let_def split: if_splits)
  show ?thesis using l p sp c1 r by blast
qed

lemma infer_shape:
  assumes img: "shape srcImage = [h, w, c]"
    and bic: "\<forall>a b n k y x t. shape t = [n, k, y, x] \<longrightarrow> shape (resize_bicubic E a b t) = [n, k, a, b]"
    and fwd: "\<forall>x. \<exists>l. forward E m x = Some l \<and> shape l = [1, n_classes cf, img_size cf, img_size cf]"
    and sm: "\<forall>t. shape (softmax_dim1 E t) = shape t"
    and nc: "1 \<le> n_classes cf"
  shows "\<exists>lbl. infer E m (Some cf) srcImage = Inr lbl \<and> shape lbl = filter (\<lambda>d. d \<noteq> 1) [h, w]"
proof -
  obtain p where sp: "shape p = [1, 1, img_size cf, img_size cf]"
    and r: "infer E m (Some cf) srcImage = Inr (squeeze (resize_nearest h w p))"
    using infer_result [OF img bic fwd sm nc] by blast
  have "shape (squeeze (resize_nearest h w p)) = filter (\<lambda>d. d \<noteq> 1) [h, w]"
    by (simp add: squeeze_def resize_nearest_def sp Let_def)
  then show ?thesis using r by simp
qed

text \<open>
  C5. For every image of three channels, at least one pixel high and wide, and every
  network that returns logits of the shape the configuration declares (one batch entry, \<open>n_classes\<close> classes, \<open>img_size\<close> rows and
  columns, with at least one class), \<open>infer\<close> returns a label map, and every entry of
  that label map is an integer in the half-open range from 0 to \<open>n_classes\<close>.
\<close>

theorem infer_labels_in_range:
  assumes img: "shape srcImage = [h, w, 3]" and h: "1 \<le> h" and w: "1 \<le> w"
    and bic: "\<forall>a b n k y x t. shape t = [n, k, y, x] \<longrightarrow> shape (resize_bicubic E a b t) = [n, k, a, b]"
    and fwd: "\<forall>x. \<exists>l. forward E m x = Some l \<and> shape l = [1, n_classes cf, img_size cf, img_size cf]"
    and sm: "\<forall>t. shape (softmax_dim1 E t) = shape t"
    and nc: "1 \<le> n_classes cf"
  shows "\<exists>lbl. infer E m (Some cf) srcImage = Inr lbl
           \<and> (\<forall>idx. valid_index (shape lbl) idx
                 \<longrightarrow> 0 \<le> elem lbl idx \<and> elem lbl idx < int (n_classes cf))"
proof -
  obtain l p where p: "argmax_dim1_keepdim (softmax_dim1 E l) = Inr p"
    and c: "shape (softmax_dim1 E l) ! 1 = n_classes cf"
    and r: "infer E m (Some cf) srcImage = Inr (squeeze (resize_nearest h w p))"
    using infer_result [OF img bic fwd sm nc] by blast
  have "0 \<le> elem (squeeze (resize_nearest h w p)) idx
        \<and> elem (squeeze (resize_nearest h w p)) idx < int (n_classes cf)" for idx
    using argmax_dim1_keepdim_range [OF p] c
    by (simp add: squeeze_def resize_nearest_def Let_def)
  then show ?thesis using r by simp
qed

theorem infer_labels_in_range_witness:
  "\<exists>lbl. infer example_env example_model (Some example_cfg) (white_image [3, 3, 3]) = Inr lbl
     \<and> (\<forall>idx. valid_index (shape lbl) idx \<longrightarrow> 0 \<le> elem lbl idx \<and> elem lbl idx < 3)"
proof -
  have img: "shape (white_image [3, 3, 3]) = [3, 3, 3]"
    by (simp add: white_image_def)
  have bic: "\<forall>a b n k y x t. shape t = [n, k, y, x]
      \<longrightarrow> shape (resize_bicubic example_env a b (t :: rat tensor)) = [n, k, a, b]"
    by (simp add: example_env_def resize_nearest_def Let_def)
  have fwd: "\<forall>x. \<exists>l. forward example_env example_model x = Some l
      \<and> shape l = [1, n_classes example_cfg, img_size example_cfg, img_size example_cfg]"
    by (simp add: example_env_def example_model_def)
  have sm: "\<forall>t. shape (softmax_dim1 example_env t) = shape t"
    by (simp add: example_env_def)
  have nc: "1 \<le> n_classes example_cfg"
    by (simp add: example_cfg_def)
  have one: "(1::nat) \<le> 3"
    by simp
  show ?thesis
    using infer_labels_in_range [OF img one one bic fwd sm nc] by (simp add: example_cfg_def)
qed

section \<open>Validation of the source image\<close>

lemma Normalize_call_not_ValueError: "Normalize_call mean std img \<noteq> Inl ValueError"
  by (auto simp: Normalize_call_def split: list.splits)

lemma argmax_dim1_keepdim_not_ValueError: "argmax_dim1_keepdim t \<noteq> Inl ValueError"
  by (auto simp: argmax_dim1_keepdim_def)

lemma infer_wrong_rank: "length (shape srcImage) \<noteq> 3 \<Longrightarrow> infer E m cfo srcImage = Inl ValueError"
  by (auto simp: infer_def split: list.splits)

lemma infer_rank_three:
  assumes "length (shape srcImage) = 3"
  shows "infer E m cfo srcImage \<noteq> Inl ValueError"
proof -
  obtain h w c where "shape srcImage = [h, w, c]"
    using assms by (auto simp: length_Suc_conv numeral_3_eq_3)
  then show ?thesis
    using Normalize_call_not_ValueError argmax_dim1_keepdim_not_ValueError
    by (auto simp: infer_def Let_def split: option.splits sum.splits if_splits)
qed

text \<open>
  C8, as claimed: \<open>infer\<close> rejects, before the forward pass, every image that is not a
  three-channel raster with entries in the 8-bit range. It does not: a 2 x 2 image with
  four channels and entries 1000 goes through the network and gets a label map.
\<close>

theorem infer_accepts_four_channels_out_of_range:
  "shape four_channel_image = [2, 2, 4] \<and> elem four_channel_image [0, 0, 0] = 1000
   \<and> map_sum id shape (infer example_env example_model (Some example_cfg) four_channel_image)
       = Inr [2, 2]"
  by (simp add: infer_def four_channel_image_def example_env_def example_model_def example_cfg_def
      to_float_def permute_def tensor_of_singleton_def resize_nearest_def Normalize_call_def
      argmax_dim1_keepdim_def squeeze_def Let_def)

text \<open>
  C8, amended: the only check is the unpacking of the image's shape into height, width
  and channels. \<open>infer\<close> fails with ValueError exactly for the images that do not have
  three axes, whatever the world does (so without resizing or running the network), and
  the run then stops with this error and writes no output. Neither the number of
  channels nor the range of the entries is checked.
\<close>

theorem infer_rejects_exactly_wrong_rank:
  "(infer E m cfo srcImage = Inl ValueError \<longleftrightarrow> length (shape srcImage) \<noteq> 3)
   \<and> (length (shape srcImage) \<noteq> 3 \<longrightarrow> output_step E m srcImage s = (Some ValueError, s))"
  using infer_wrong_rank [of srcImage E m cfo] infer_wrong_rank [of srcImage E m "cfg s"]
    infer_rank_three [of srcImage E m cfo]
  by (auto simp: output_step_def)

theorem infer_rejects_exactly_wrong_rank_witness:
  "infer example_env example_model (Some example_cfg) (white_image [4, 4]) = Inl ValueError
   \<and> output_step example_env example_model (white_image [4, 4]) initial_state
       = (Some ValueError, initial_state)"
  using infer_rejects_exactly_wrong_rank
    [of example_env example_model "Some example_cfg" "white_image [4, 4]" initial_state]
  by (simp add: white_image_def)

section \<open>Legend\<close>

lemma legend_rows_eq:
  "i + length cs \<le> length ns \<Longrightarrow>
   legend_rows rh ns i cs =
     Inr (concat (map (\<lambda>j. [Rectangle (10, int j * rh + 10) (343, (int j + 1) * rh) (cs ! (j - i)) (- 1),
                            PutText (ns ! j) (363, (int j + 1) * rh - rh div 3) 1 [0, 0, 0] 2])
                  [i..<i + length cs]))"
proof (induction cs arbitrary: i)
  case Nil
  then show ?case by simp
next
  case (Cons c cs)
  have step: "[i..<i + length (c # cs)] = i # [Suc i..<Suc i + length cs]"
    using upt_conv_Cons [of i "i + length (c # cs)"] by simp
  have ih: "legend_rows rh ns (Suc i) cs =
     Inr (concat (map (\<lambda>j. [Rectangle (10, int j * rh + 10) (343, (int j + 1) * rh) (cs ! (j - Suc i)) (- 1),
                            PutText (ns ! j) (363, (int j + 1) * rh - rh div 3) 1 [0, 0, 0] 2])
                  [Suc i..<Suc i + length cs]))"
    using Cons.IH [of "Suc i"] Cons.prems by simp
  have same: "map (\<lambda>j. [Rectangle (10, int j * rh + 10) (343, (int j + 1) * rh) ((c # cs) ! (j - i)) (- 1),
                            PutText (ns ! j) (363, (int j + 1) * rh - rh div 3) 1 [0, 0, 0] 2])
                  [Suc i..<Suc i + length cs]
            = map (\<lambda>j. [Rectangle (10, int j * rh + 10) (343, (int j + 1) * rh) (cs ! (j - Suc i)) (- 1),
                            PutText (ns ! j) (363, (int j + 1) * rh - rh div 3) 1 [0, 0, 0] 2])
                  [Suc i..<Suc i + length cs]"
    by (rule map_cong) (auto simp: nth_Cons')
  show ?case
    using Cons.prems by (simp only: step list.map concat.simps same) (simp add: ih)
qed







section \<open>Facts about the steps of a run\<close>

lemma load_config_step_frame:
  assumes "load_config_step E s = (e, s')"
  shows "model s' = model s \<and> update s' = update s \<and> next_ident s' = next_ident s
         \<and> colors s' = colors s \<and> rng s' = rng s \<and> configFile s' = configFile s
         \<and> modelFile s' = modelFile s"
  using assms by (auto simp: load_config_step_def split: if_splits option.splits)

lemma load_config_step_error:
  assumes "load_config_step E s = (Some e, s')"
  shows "e = ConfigLoadError \<and> s' = s"
  using assms by (auto simp: load_config_step_def split: if_splits option.splits)

lemma load_config_step_reload:
  assumes "load_config_step E s = (None, s')" and "update s" and "configFile s \<noteq> []"
  shows "cfg s' = open_yaml E (configFile s) \<and> cfg s' \<noteq> None"
  using assms by (auto simp: load_config_step_def split: if_splits option.splits)

lemma build_model_step_frame:
  assumes "build_model_step E s = (e, s')"
  shows "cfg s' = cfg s \<and> classes s' = classes s \<and> update s' = update s
         \<and> colors s' = colors s \<and> rng s' = rng s"
  using assms
  by (auto simp: build_model_step_def Let_def split: if_splits option.splits)

lemma build_model_step_error:
  assumes "build_model_step E s = (Some e, s')"
  shows "(e = ModelBuildError \<and> s' = s)
         \<or> (e = WeightLoadError \<and> (\<exists>c. cfg s = Some c \<and> model s' =
               Some \<lparr>ident = next_ident s, built_from = c, on_cuda = cuda_is_available E,
                     weights = None, eval_mode = False\<rparr>))"
  using assms
  by (auto simp: build_model_step_def Let_def split: if_splits option.splits)

lemma build_model_step_keeps:
  assumes "build_model_step E s = (e, s')" and "\<not> update s" and "model s = Some h"
  shows "e = None \<and> s' = s"
  using assms
  by (auto simp: build_model_step_def Let_def split: if_splits option.splits)

lemma build_model_step_rebuilds:
  assumes "build_model_step E s = (None, s')" and "update s \<or> model s = None" and "cfg s = Some c"
  shows "\<exists>h. model s' = Some h \<and> ident h = next_ident s \<and> built_from h = c
           \<and> eval_mode h \<and> next_ident s' = Suc (next_ident s)"
  using assms
  by (auto simp: build_model_step_def Let_def split: if_splits option.splits)

lemma build_model_step_no_config:
  assumes "build_model_step E s = (e, s')" and "cfg s = None"
  shows "e = None \<and> s' = s"
  using assms by (auto simp: build_model_step_def)

lemma color_map_step_frame:
  assumes "color_map_step E s = (e, s')"
  shows "model s' = model s \<and> update s' = update s \<and> next_ident s' = next_ident s
         \<and> cfg s' = cfg s \<and> classes s' = classes s"
  using assms
  by (auto simp: color_map_step_def Let_def split: if_splits option.splits prod.splits)

lemma color_map_step_builds:
  assumes "color_map_step E s = (None, s')" and "colors s = None \<or> update s"
    and "classes s = Some ns"
  shows "colors s' = Some (fst (build_colors E (length ns) (rng s)))"
  using assms
  by (auto simp: color_map_step_def Let_def split: if_splits option.splits prod.splits)

lemma output_step_frame:
  assumes "output_step E m img s = (e, s')"
  shows "model s' = model s \<and> next_ident s' = next_ident s \<and> cfg s' = cfg s
         \<and> classes s' = classes s \<and> (update s \<longrightarrow> update s' = (e \<noteq> None))
         \<and> (\<not> update s \<longrightarrow> \<not> update s')"
proof (cases "infer E m (cfg s) img")
  case (Inl a)
  then show ?thesis using assms by (auto simp: output_step_def)
next
  case (Inr lbl)
  obtain e1 s1 where c: "color_map_step E (s\<lparr>mask_output := Some lbl\<rparr>) = (e1, s1)"
    by (cases "color_map_step E (s\<lparr>mask_output := Some lbl\<rparr>)")
  from color_map_step_frame [OF c] Inr c assms show ?thesis
    by (auto simp: output_step_def Let_def split: option.splits sum.splits)
qed

lemma output_step_colors:
  assumes "output_step E m img s = (None, s')" and "colors s = None \<or> update s"
    and "classes s = Some ns"
  shows "colors s' = Some (fst (build_colors E (length ns) (rng s)))"
proof (cases "infer E m (cfg s) img")
  case (Inl a)
  then show ?thesis using assms by (auto simp: output_step_def)
next
  case (Inr lbl)
  obtain e1 s1 where c: "color_map_step E (s\<lparr>mask_output := Some lbl\<rparr>) = (e1, s1)"
    by (cases "color_map_step E (s\<lparr>mask_output := Some lbl\<rparr>)")
  have e1: "e1 = None"
    using Inr c assms(1) by (auto simp: output_step_def Let_def split: option.splits sum.splits)
  have "colors s1 = Some (fst (build_colors E (length ns) (rng s)))"
    using color_map_step_builds [of E "s\<lparr>mask_output := Some lbl\<rparr>" s1 ns] c e1 assms by simp
  then show ?thesis
    using Inr c e1 assms(1) by (auto simp: output_step_def Let_def split: option.splits sum.splits)
qed

text \<open>The run, cut at its steps: where it can stop, and in which state.\<close>

lemma run_cases:
  assumes "run E img s = (e, s')"
  obtains (config_error) "e = Some ConfigLoadError" "s' = s\<lparr>rng := random_seed E 10\<rparr>"
  | (build_error) s1 b where "load_config_step E (s\<lparr>rng := random_seed E 10\<rparr>) = (None, s1)"
      "build_model_step E s1 = (Some b, s')" "e = Some b"
  | (no_output) s1 where "load_config_step E (s\<lparr>rng := random_seed E 10\<rparr>) = (None, s1)"
      "build_model_step E s1 = (None, s')" "e = None" "model s' = None \<or> img = None"
  | (full_run) s1 s2 m i where "load_config_step E (s\<lparr>rng := random_seed E 10\<rparr>) = (None, s1)"
      "build_model_step E s1 = (None, s2)" "model s2 = Some m" "img = Some i"
      "output_step E m i s2 = (e, s')"
proof -
  obtain e1 s1 where l: "load_config_step E (s\<lparr>rng := random_seed E 10\<rparr>) = (e1, s1)"
    by (cases "load_config_step E (s\<lparr>rng := random_seed E 10\<rparr>)")
  show thesis
  proof (cases e1)
    case (Some a)
    then show ?thesis
      using l assms load_config_step_error [of E "s\<lparr>rng := random_seed E 10\<rparr>" a s1] config_error
      by (auto simp: run_def)
  next
    case None
    obtain e2 s2 where b: "build_model_step E s1 = (e2, s2)"
      by (cases "build_model_step E s1")
    show ?thesis
    proof (cases e2)
      case (Some a)
      then show ?thesis using l None b assms build_error by (auto simp: run_def)
    next
      case n2: None
      show ?thesis
      proof (cases "model s2")
        case None
        then show ?thesis using l \<open>e1 = None\<close> b n2 assms no_output by (auto simp: run_def)
      next
        case (Some m)
        show ?thesis
        proof (cases img)
          case None
          then show ?thesis using l \<open>e1 = None\<close> b n2 Some assms no_output by (auto simp: run_def)
        next
          case (Some i)
          then show ?thesis
            using l \<open>e1 = None\<close> b n2 \<open>model s2 = Some m\<close> assms full_run [of s1 s2 m i]
            by (auto simp: run_def)
        qed
      qed
    qed
  qed
qed

lemma Normalize_call_error: "Normalize_call mean std img = Inl e \<Longrightarrow> e = TypeError"
  by (auto simp: Normalize_call_def split: list.splits)

lemma argmax_dim1_keepdim_error: "argmax_dim1_keepdim t = Inl e \<Longrightarrow> e = IndexError"
  by (auto simp: argmax_dim1_keepdim_def split: if_splits)

lemma infer_error:
  assumes "infer E m cfo srcImage = Inl e"
  shows "e \<in> {ValueError, AttributeError, TypeError, ForwardError, IndexError}"
proof (cases "length (shape srcImage) = 3")
  case False
  then show ?thesis using assms infer_wrong_rank [of srcImage E m cfo] by simp
next
  case True
  then obtain h w c where "shape srcImage = [h, w, c]"
    by (auto simp: length_Suc_conv numeral_3_eq_3)
  then show ?thesis
    using assms
    by (auto simp: infer_def Let_def split: option.splits sum.splits if_splits
        dest: Normalize_call_error argmax_dim1_keepdim_error)
qed

lemma infer_needs_config: "infer E m None srcImage = Inr lbl \<Longrightarrow> False"
  by (auto simp: infer_def split: list.splits)

lemma legend_rows_error: "legend_rows rh ns i cs = Inl e \<Longrightarrow> e = IndexError"
  by (induction cs arbitrary: i) (auto split: if_splits sum.splits)

lemma draw_legend_error:
  "draw_legend cols names = Inl e \<Longrightarrow> e \<in> {TypeError, ZeroDivisionError, IndexError}"
  by (auto simp: draw_legend_def Let_def split: option.splits if_splits sum.splits
      dest: legend_rows_error)

lemma color_map_step_error: "color_map_step E s = (Some e, s') \<Longrightarrow> e = TypeError"
  by (auto simp: color_map_step_def Let_def split: if_splits option.splits prod.splits)

lemma output_step_error:
  assumes "output_step E m img s = (Some e, s')"
  shows "e \<in> {ValueError, AttributeError, TypeError, ForwardError, IndexError, ZeroDivisionError}"
proof (cases "infer E m (cfg s) img")
  case (Inl a)
  then show ?thesis using assms infer_error [OF Inl] by (auto simp: output_step_def)
next
  case (Inr lbl)
  obtain e1 s1 where c: "color_map_step E (s\<lparr>mask_output := Some lbl\<rparr>) = (e1, s1)"
    by (cases "color_map_step E (s\<lparr>mask_output := Some lbl\<rparr>)")
  show ?thesis
  proof (cases e1)
    case (Some a)
    then show ?thesis
      using Inr c assms color_map_step_error [of E _ a s1] by (auto simp: output_step_def)
  next
    case None
    then show ?thesis
      using Inr c assms draw_legend_error [of "colors s1" "classes s1" e]
      by (auto simp: output_step_def Let_def split: sum.splits)
  qed
qed

lemma output_step_needs_config:
  assumes "output_step E m img s = (None, s')"
  shows "cfg s \<noteq> None"
proof
  assume n: "cfg s = None"
  show False
  proof (cases "infer E m (cfg s) img")
    case (Inl a)
    then show ?thesis using assms by (auto simp: output_step_def)
  next
    case (Inr lbl)
    then show ?thesis using n infer_needs_config [of E m img lbl] by simp
  qed
qed


lemma load_config_step_keeps_config:
  assumes "load_config_step E s = (None, s')" and "cfg s \<noteq> None"
  shows "cfg s' \<noteq> None"
  using assms by (auto simp: load_config_step_def split: if_splits option.splits)

lemma build_model_step_new_handle:
  assumes "build_model_step E s = (e, s')" and "update s \<or> model s = None"
    and "cfg s = Some c" and "e \<noteq> Some ModelBuildError"
  shows "\<exists>h. model s' = Some h \<and> ident h = next_ident s \<and> built_from h = c
           \<and> next_ident s' = Suc (next_ident s)"
  using assms
  by (auto simp: build_model_step_def Let_def split: if_splits option.splits)

lemma build_model_step_idents:
  assumes "build_model_step E s = (e, s')"
    and "\<forall>h. model s = Some h \<longrightarrow> ident h < next_ident s"
  shows "\<forall>h. model s' = Some h \<longrightarrow> ident h < next_ident s'"
  using assms
  by (auto simp: build_model_step_def Let_def split: if_splits option.splits)

lemma run_without_update_keeps_model:
  assumes "run E img s = (e, s')" and "\<not> update s" and "model s = Some h"
  shows "model s' = Some h \<and> next_ident s' = next_ident s"
  using assms(1)
proof (cases rule: run_cases)
  case config_error
  then show ?thesis using assms by simp
next
  case (build_error s1 b)
  have "model s1 = Some h \<and> \<not> update s1"
    using load_config_step_frame [OF build_error(1)] assms by simp
  then show ?thesis
    using build_model_step_keeps [OF build_error(2)] by simp
next
  case (no_output s1)
  have f: "model s1 = Some h \<and> \<not> update s1 \<and> next_ident s1 = next_ident s"
    using load_config_step_frame [OF no_output(1)] assms by simp
  then show ?thesis
    using build_model_step_keeps [OF no_output(2)] by simp
next
  case (full_run s1 s2 m i)
  have f: "model s1 = Some h \<and> \<not> update s1 \<and> next_ident s1 = next_ident s"
    using load_config_step_frame [OF full_run(1)] assms by simp
  then have "s2 = s1"
    using build_model_step_keeps [OF full_run(2)] by simp
  then show ?thesis
    using f output_step_frame [OF full_run(5)] by simp
qed

lemma run_idents:
  assumes "run E img s = (e, s')" and "\<forall>h. model s = Some h \<longrightarrow> ident h < next_ident s"
  shows "\<forall>h. model s' = Some h \<longrightarrow> ident h < next_ident s'"
  using assms(1)
proof (cases rule: run_cases)
  case config_error
  then show ?thesis using assms by simp
next
  case (build_error s1 b)
  have "\<forall>h. model s1 = Some h \<longrightarrow> ident h < next_ident s1"
    using load_config_step_frame [OF build_error(1)] assms(2) by simp
  then show ?thesis by (rule build_model_step_idents [OF build_error(2)])
next
  case (no_output s1)
  have "\<forall>h. model s1 = Some h \<longrightarrow> ident h < next_ident s1"
    using load_config_step_frame [OF no_output(1)] assms(2) by simp
  then show ?thesis by (rule build_model_step_idents [OF no_output(2)])
next
  case (full_run s1 s2 m i)
  have "\<forall>h. model s1 = Some h \<longrightarrow> ident h < next_ident s1"
    using load_config_step_frame [OF full_run(1)] assms(2) by simp
  then have "\<forall>h. model s2 = Some h \<longrightarrow> ident h < next_ident s2"
    by (rule build_model_step_idents [OF full_run(2)])
  then show ?thesis using output_step_frame [OF full_run(5)] by simp
qed

lemma run_with_config_has_model:
  assumes "run E img s = (None, s')" and "cfg s' \<noteq> None"
  shows "model s' \<noteq> None"
  using assms(1)
proof (cases rule: run_cases)
  case config_error
  then show ?thesis by simp
next
  case (build_error s1 b)
  then show ?thesis by simp
next
  case (no_output s1)
  obtain c where c: "cfg s1 = Some c"
    using build_model_step_frame [OF no_output(2)] assms(2) by auto
  show ?thesis
  proof (cases "update s1 \<or> model s1 = None")
    case True
    then show ?thesis using build_model_step_new_handle [OF no_output(2) True c] by auto
  next
    case False
    then obtain h where "\<not> update s1" "model s1 = Some h" by auto
    then show ?thesis using build_model_step_keeps [OF no_output(2)] by auto
  qed
next
  case (full_run s1 s2 m i)
  then show ?thesis using output_step_frame [OF full_run(5)] by simp
qed

lemma build_model_step_parameters:
  assumes "build_model_step E s = (e, s')"
  shows "configFile s' = configFile s \<and> modelFile s' = modelFile s"
  using assms
  by (auto simp: build_model_step_def Let_def split: if_splits option.splits)

lemma output_step_parameters:
  assumes "output_step E m img s = (e, s')"
  shows "configFile s' = configFile s \<and> modelFile s' = modelFile s"
  using assms
  by (auto simp: output_step_def color_map_step_def case_prod_beta Let_def
      split: if_splits option.splits sum.splits)

lemma run_parameters:
  assumes "run E img s = (e, s')"
  shows "configFile s' = configFile s \<and> modelFile s' = modelFile s"
  using assms
proof (cases rule: run_cases)
  case config_error
  then show ?thesis by simp
next
  case (build_error s1 b)
  then show ?thesis
    using load_config_step_frame [OF build_error(1)] build_model_step_parameters [OF build_error(2)]
    by simp
next
  case (no_output s1)
  then show ?thesis
    using load_config_step_frame [OF no_output(1)] build_model_step_parameters [OF no_output(2)]
    by simp
next
  case (full_run s1 s2 m i)
  then show ?thesis
    using load_config_step_frame [OF full_run(1)] build_model_step_parameters [OF full_run(2)]
      output_step_parameters [OF full_run(5)]
    by simp
qed

lemma run_update_flag:
  assumes "run E img s = (e, s')" and "update s"
  shows "update s' \<longleftrightarrow> (e \<noteq> None \<or> model s' = None \<or> img = None)"
  using assms(1)
proof (cases rule: run_cases)
  case config_error
  then show ?thesis using assms(2) by simp
next
  case (build_error s1 b)
  then show ?thesis
    using load_config_step_frame [OF build_error(1)] build_model_step_frame [OF build_error(2)]
      assms(2) by simp
next
  case (no_output s1)
  then show ?thesis
    using load_config_step_frame [OF no_output(1)] build_model_step_frame [OF no_output(2)]
      assms(2) by auto
next
  case (full_run s1 s2 m i)
  have "update s2"
    using load_config_step_frame [OF full_run(1)] build_model_step_frame [OF full_run(2)]
      assms(2) by simp
  then show ?thesis
    using output_step_frame [OF full_run(5)] full_run(3,4) by auto
qed

lemma run_keeps_config:
  assumes "run E img s = (e, s')" and "cfg s \<noteq> None"
  shows "cfg s' \<noteq> None"
  using assms(1)
proof (cases rule: run_cases)
  case config_error
  then show ?thesis using assms(2) by simp
next
  case (build_error s1 b)
  then show ?thesis
    using load_config_step_keeps_config [OF build_error(1)] build_model_step_frame [OF build_error(2)]
      assms(2) by simp
next
  case (no_output s1)
  then show ?thesis
    using load_config_step_keeps_config [OF no_output(1)] build_model_step_frame [OF no_output(2)]
      assms(2) by simp
next
  case (full_run s1 s2 m i)
  then show ?thesis
    using load_config_step_keeps_config [OF full_run(1)] build_model_step_frame [OF full_run(2)]
      output_step_frame [OF full_run(5)] assms(2) by simp
qed

lemma load_config_step_classes:
  assumes "load_config_step E s = (None, s')" and "update s \<or> cfg s = None"
    and "configFile s \<noteq> []"
  shows "\<exists>c. open_yaml E (configFile s) = Some c \<and> cfg s' = Some c
           \<and> classes s' = Some (class_names c)"
  using assms by (auto simp: load_config_step_def split: if_splits option.splits)

lemma run_reloads_config:
  assumes "run E img s = (e, s')" and "update s \<or> cfg s = None" and "configFile s \<noteq> []"
    and "e \<noteq> Some ConfigLoadError"
  shows "\<exists>c. open_yaml E (configFile s) = Some c \<and> cfg s' = Some c
           \<and> classes s' = Some (class_names c)"
  using assms(1)
proof (cases rule: run_cases)
  case config_error
  then show ?thesis using assms(4) by simp
next
  case (build_error s1 b)
  then show ?thesis
    using load_config_step_classes [OF build_error(1)] build_model_step_frame [OF build_error(2)]
      assms(2,3) by simp
next
  case (no_output s1)
  then show ?thesis
    using load_config_step_classes [OF no_output(1)] build_model_step_frame [OF no_output(2)]
      assms(2,3) by simp
next
  case (full_run s1 s2 m i)
  then show ?thesis
    using load_config_step_classes [OF full_run(1)] build_model_step_frame [OF full_run(2)]
      output_step_frame [OF full_run(5)] assms(2,3) by simp
qed

lemma run_with_update_new_handle:
  assumes "run E img s = (e, s')" and "update s" and "cfg s' \<noteq> None"
    and "e \<noteq> Some ConfigLoadError" and "e \<noteq> Some ModelBuildError"
  shows "\<exists>h. model s' = Some h \<and> ident h = next_ident s \<and> cfg s' = Some (built_from h)
           \<and> next_ident s' = Suc (next_ident s)"
  using assms(1)
proof (cases rule: run_cases)
  case config_error
  then show ?thesis using assms by simp
next
  case (build_error s1 b)
  have f: "next_ident s1 = next_ident s \<and> update s1"
    using load_config_step_frame [OF build_error(1)] assms(2) by simp
  have g: "cfg s' = cfg s1"
    using build_model_step_frame [OF build_error(2)] by simp
  then obtain c where c: "cfg s1 = Some c" using assms(3) by auto
  show ?thesis
    using build_model_step_new_handle [OF build_error(2) _ c] build_error(3) assms(5) f g c
    by auto
next
  case (no_output s1)
  have f: "next_ident s1 = next_ident s \<and> update s1"
    using load_config_step_frame [OF no_output(1)] assms(2) by simp
  have g: "cfg s' = cfg s1"
    using build_model_step_frame [OF no_output(2)] by simp
  then obtain c where c: "cfg s1 = Some c" using assms(3) by auto
  show ?thesis
    using build_model_step_new_handle [OF no_output(2) _ c] f g c by auto
next
  case (full_run s1 s2 m i)
  have f: "next_ident s1 = next_ident s \<and> update s1"
    using load_config_step_frame [OF full_run(1)] assms(2) by simp
  have g: "cfg s2 = cfg s1 \<and> cfg s' = cfg s2"
    using build_model_step_frame [OF full_run(2)] output_step_frame [OF full_run(5)] by simp
  then obtain c where c: "cfg s1 = Some c" using assms(3) by auto
  show ?thesis
    using build_model_step_new_handle [OF full_run(2) _ c] f g c output_step_frame [OF full_run(5)]
    by auto
qed


section \<open>Facts about the colour map\<close>

lemma append_colors_Suc:
  "fst (append_colors E (Suc k) g)
     = [fst (randint_0_255 E g),
        fst (randint_0_255 E (snd (randint_0_255 E g))),
        fst (randint_0_255 E (snd (randint_0_255 E (snd (randint_0_255 E g))))), 255]
       # fst (append_colors E k
               (snd (randint_0_255 E (snd (randint_0_255 E (snd (randint_0_255 E g)))))))"
  by (simp add: case_prod_beta Let_def)

lemma append_colors_length: "length (fst (append_colors E k g)) = k"
proof (induction k arbitrary: g)
  case 0
  then show ?case by simp
next
  case (Suc k)
  then show ?case by (simp only: append_colors_Suc) simp
qed

lemma append_colors_nth:
  "i < k \<Longrightarrow> fst (append_colors E k g) ! i
     = [nth_draw E g (3 * i), nth_draw E g (3 * i + 1), nth_draw E g (3 * i + 2), 255]"
proof (induction k arbitrary: g i)
  case 0
  then show ?case by simp
next
  case (Suc k)
  show ?case
  proof (cases i)
    case 0
    then show ?thesis
      by (simp only: append_colors_Suc) (simp add: numeral_2_eq_2)
  next
    case (Suc j)
    have j: "j < k" using Suc.prems \<open>i = Suc j\<close> by simp
    have three: "3 * Suc j = Suc (Suc (Suc (3 * j)))" by simp
    show ?thesis
      using Suc.IH [OF j, of "snd (randint_0_255 E (snd (randint_0_255 E (snd (randint_0_255 E g)))))"]
      by (simp only: append_colors_Suc \<open>i = Suc j\<close> three) simp
  qed
qed

lemma build_colors_length: "length (fst (build_colors E n g)) = Suc (n - 1)"
  using append_colors_length [of E "n - 1" g]
  by (simp add: build_colors_def case_prod_beta)

lemma build_colors_first: "fst (build_colors E n g) ! 0 = [0, 0, 0]"
  by (simp add: build_colors_def case_prod_beta)

lemma build_colors_nth:
  assumes "1 \<le> i" and "i < n"
  shows "fst (build_colors E n g) ! i
     = [nth_draw E g (3 * (i - 1)), nth_draw E g (3 * (i - 1) + 1), nth_draw E g (3 * (i - 1) + 2), 255]"
proof -
  have "i - 1 < n - 1" using assms by simp
  from append_colors_nth [OF this, of E g] assms show ?thesis
    by (cases i) (auto simp: build_colors_def case_prod_beta)
qed

lemma run_colors:
  assumes "run E (Some img) s = (None, s')" and "model s' \<noteq> None"
    and "colors s = None \<or> update s" and "classes s' = Some ns"
  shows "colors s' = Some (fst (build_colors E (length ns) (random_seed E 10)))"
  using assms(1)
proof (cases rule: run_cases)
  case config_error
  then show ?thesis by simp
next
  case (build_error s1 b)
  then show ?thesis by simp
next
  case (no_output s1)
  then show ?thesis using assms(2) by simp
next
  case (full_run s1 s2 m i)
  have f1: "colors s1 = colors s \<and> update s1 = update s \<and> rng s1 = random_seed E 10"
    using load_config_step_frame [OF full_run(1)] by simp
  have f2: "colors s2 = colors s \<and> update s2 = update s \<and> rng s2 = random_seed E 10"
    using build_model_step_frame [OF full_run(2)] f1 by simp
  have c: "classes s2 = Some ns"
    using output_step_frame [OF full_run(5)] assms(4) by simp
  show ?thesis
    using output_step_colors [OF full_run(5) _ c] f2 assms(3) by auto
qed

section \<open>Runs that complete\<close>

lemma output_step_completes:
  assumes inf: "infer E m (cfg s) img = Inr lbl" and cl: "classes s = Some ns"
    and ne: "ns \<noteq> []" and reb: "colors s = None \<or> update s"
  shows "fst (output_step E m img s) = None"
proof -
  let ?cs = "fst (build_colors E (length ns) (rng s))"
  let ?s1 = "s\<lparr>mask_output := Some lbl, colors := Some ?cs,
               rng := snd (build_colors E (length ns) (rng s)), color_map_output := Some ?cs\<rparr>"
  have c: "color_map_step E (s\<lparr>mask_output := Some lbl\<rparr>) = (None, ?s1)"
    using cl reb by (auto simp: color_map_step_def case_prod_beta Let_def)
  have len: "length ?cs = length ns"
    using build_colors_length [of E "length ns" "rng s"] ne by (cases ns) auto
  have "\<exists>os. legend_rows (min 100 (1000 div int (length ?cs))) ns 0 ?cs = Inr os"
    using legend_rows_eq [of 0 ?cs ns] len by simp
  then obtain l where "draw_legend (Some ?cs) (Some ns) = Inr l"
    using len ne by (auto simp: draw_legend_def Let_def)
  then show ?thesis
    using inf c cl by (simp add: output_step_def Let_def)
qed

lemma run_completes:
  assumes cfile: "configFile s \<noteq> []" and yaml: "open_yaml E (configFile s) = Some c"
    and fresh: "update s \<or> (cfg s = None \<and> model s = None \<and> colors s = None)"
    and vit: "ViT_seg_constructs E c"
    and load: "isfile E (modelFile s) \<longrightarrow> load_state_dict_succeeds E c (modelFile s)"
    and img: "shape img = [h, w, ch]"
    and bic: "\<forall>a b n k y x t. shape t = [n, k, y, x] \<longrightarrow> shape (resize_bicubic E a b t) = [n, k, a, b]"
    and fwd: "\<forall>m x. built_from m = c \<longrightarrow>
          (\<exists>l. forward E m x = Some l \<and> shape l = [1, n_classes c, img_size c, img_size c])"
    and sm: "\<forall>t. shape (softmax_dim1 E t) = shape t"
    and nc: "1 \<le> n_classes c" and names: "class_names c \<noteq> []"
  shows "fst (run E (Some img) s) = None"
proof -
  let ?s0 = "s\<lparr>rng := random_seed E 10\<rparr>"
  let ?s1 = "?s0\<lparr>cfg := Some c, classes := Some (class_names c)\<rparr>"
  have l: "load_config_step E ?s0 = (None, ?s1)"
    using cfile yaml fresh by (auto simp: load_config_step_def)
  obtain e2 s2 where b: "build_model_step E ?s1 = (e2, s2)"
    by (cases "build_model_step E ?s1")
  have e2: "e2 = None"
    using b vit load fresh
    by (auto simp: build_model_step_def Let_def split: if_splits)
  have "update ?s1 \<or> model ?s1 = None" using fresh by auto
  then obtain m where m: "model s2 = Some m" and bm: "built_from m = c"
    using build_model_step_new_handle [OF b, of c] e2 by auto
  have f: "cfg s2 = Some c \<and> classes s2 = Some (class_names c)
           \<and> (colors s2 = None \<or> update s2)"
    using build_model_step_frame [OF b] fresh by auto
  obtain lbl where "infer E m (Some c) img = Inr lbl"
    using infer_shape [OF img bic _ sm nc, of m] fwd bm by blast
  then have "fst (output_step E m img s2) = None"
    using output_step_completes [of E m s2 img lbl "class_names c"] f names by simp
  then show ?thesis
    using l b e2 m by (simp add: run_def)
qed

section \<open>The concrete runs\<close>

lemma example_cfg_fields:
  "img_size example_cfg = 2" "n_classes example_cfg = 3"
  "class_names example_cfg = [''bg'', ''cat'', ''dog'']"
  "pretrained_path example_cfg = Some ''imagenet21k.npz''"
  by (simp_all add: example_cfg_def)

lemma first_run_load:
  "load_config_step example_env
     (initial_state\<lparr>configFile := ''a.yaml'', modelFile := ''weights.pth'',
        rng := random_seed example_env 10\<rparr>)
   = (None, initial_state\<lparr>configFile := ''a.yaml'', modelFile := ''weights.pth'',
        rng := 10, cfg := Some example_cfg, classes := Some [''bg'', ''cat'', ''dog'']\<rparr>)"
  by (simp add: load_config_step_def initial_state_def example_env_def example_cfg_fields)

lemma first_run_build:
  "build_model_step example_env
     (initial_state\<lparr>configFile := ''a.yaml'', modelFile := ''weights.pth'',
        rng := 10, cfg := Some example_cfg, classes := Some [''bg'', ''cat'', ''dog'']\<rparr>)
   = (None, initial_state\<lparr>configFile := ''a.yaml'', modelFile := ''weights.pth'',
        rng := 10, cfg := Some example_cfg, classes := Some [''bg'', ''cat'', ''dog''],
        model := Some example_model, next_ident := 1\<rparr>)"
  by (simp add: build_model_step_def initial_state_def example_env_def example_model_def
      example_cfg_fields Let_def)


lemma first_run_model:
  "model state_after_first_run = Some example_model \<and> \<not> update state_after_first_run"
proof -
  let ?s2 = "initial_state\<lparr>configFile := ''a.yaml'', modelFile := ''weights.pth'',
        rng := 10, cfg := Some example_cfg, classes := Some [''bg'', ''cat'', ''dog''],
        model := Some example_model, next_ident := 1\<rparr>"
  have r: "run example_env (Some (white_image [3, 3, 3]))
             (initial_state\<lparr>configFile := ''a.yaml'', modelFile := ''weights.pth''\<rparr>)
           = output_step example_env example_model (white_image [3, 3, 3]) ?s2"
    by (simp add: run_def first_run_load first_run_build)
  let ?o = "output_step example_env example_model (white_image [3, 3, 3]) ?s2"
  have "model (snd ?o) = model ?s2 \<and> (\<not> update ?s2 \<longrightarrow> \<not> update (snd ?o))"
    using output_step_frame [OF prod.collapse [symmetric], of example_env example_model
        "white_image [3, 3, 3]" ?s2]
    by blast
  then have f: "model (snd ?o) = Some example_model \<and> \<not> update (snd ?o)"
    by (simp add: initial_state_def)
  show ?thesis
    unfolding state_after_first_run_def r by (rule f)
qed


lemma example_env_runs:
  assumes "configFile s = ''a.yaml''"
    and "update s \<or> (cfg s = None \<and> model s = None \<and> colors s = None)"
    and "modelFile s = ''weights.pth''"
  shows "fst (run example_env (Some (white_image [3, 3, 3])) s) = None"
proof (rule run_completes [where c = example_cfg and h = 3 and w = 3 and ch = 3])
  show "configFile s \<noteq> []" using assms(1) by simp
  show "open_yaml example_env (configFile s) = Some example_cfg"
    using assms(1) by (simp add: example_env_def)
  show "update s \<or> (cfg s = None \<and> model s = None \<and> colors s = None)" by (rule assms(2))
  show "ViT_seg_constructs example_env example_cfg"
    by (simp add: example_env_def example_cfg_fields)
  show "isfile example_env (modelFile s) \<longrightarrow> load_state_dict_succeeds example_env example_cfg (modelFile s)"
    using assms(3) by (simp add: example_env_def)
  show "shape (white_image [3, 3, 3]) = [3, 3, 3]" by (simp add: white_image_def)
  show "\<forall>a b n k y x t. shape t = [n, k, y, x]
      \<longrightarrow> shape (resize_bicubic example_env a b t) = [n, k, a, b]"
    by (simp add: example_env_def resize_nearest_def Let_def)
  show "\<forall>m x. built_from m = example_cfg \<longrightarrow>
      (\<exists>l. forward example_env m x = Some l
        \<and> shape l = [1, n_classes example_cfg, img_size example_cfg, img_size example_cfg])"
    by (simp add: example_env_def)
  show "\<forall>t. shape (softmax_dim1 example_env t) = shape t" by (simp add: example_env_def)
  show "1 \<le> n_classes example_cfg" by (simp add: example_cfg_fields)
  show "class_names example_cfg \<noteq> []" by (simp add: example_cfg_fields)
qed

lemma first_run:
  "run example_env (Some (white_image [3, 3, 3]))
     (initial_state\<lparr>configFile := ''a.yaml'', modelFile := ''weights.pth''\<rparr>)
   = (None, state_after_first_run)"
proof -
  have "fst (run example_env (Some (white_image [3, 3, 3]))
     (initial_state\<lparr>configFile := ''a.yaml'', modelFile := ''weights.pth''\<rparr>)) = None"
    by (rule example_env_runs) (simp_all add: initial_state_def)
  then show ?thesis
    by (simp add: state_after_first_run_def prod_eq_iff)
qed

lemma first_run_config:
  "cfg state_after_first_run = Some example_cfg
   \<and> classes state_after_first_run = Some [''bg'', ''cat'', ''dog'']"
  using run_reloads_config [OF first_run]
  by (simp add: initial_state_def example_env_def example_cfg_fields)

lemma example_seed: "random_seed example_env 10 = 10"
  by (simp add: example_env_def)

lemma example_draws_Suc:
  "nth_draw example_env 10 0 = 125"
  "nth_draw example_env 10 (Suc 0) = 162"
  "nth_draw example_env 10 (Suc (Suc 0)) = 199"
  "nth_draw example_env 10 (Suc (Suc (Suc 0))) = 236"
  "nth_draw example_env 10 (Suc (Suc (Suc (Suc 0)))) = 17"
  "nth_draw example_env 10 (Suc (Suc (Suc (Suc (Suc 0))))) = 54"
  by (simp_all add: example_env_def)

lemma example_draws:
  "nth_draw example_env 10 0 = 125"
  "nth_draw example_env 10 1 = 162"
  "nth_draw example_env 10 2 = 199"
  "nth_draw example_env 10 3 = 236"
  "nth_draw example_env 10 4 = 17"
  "nth_draw example_env 10 5 = 54"
proof -
  have n: "(1::nat) = Suc 0" "(2::nat) = Suc (Suc 0)" "(3::nat) = Suc (Suc (Suc 0))"
    "(4::nat) = Suc (Suc (Suc (Suc 0)))" "(5::nat) = Suc (Suc (Suc (Suc (Suc 0))))"
    by simp_all
  show "nth_draw example_env 10 0 = 125" by (rule example_draws_Suc(1))
  show "nth_draw example_env 10 1 = 162" unfolding n(1) by (rule example_draws_Suc(2))
  show "nth_draw example_env 10 2 = 199" unfolding n(2) by (rule example_draws_Suc(3))
  show "nth_draw example_env 10 3 = 236" unfolding n(3) by (rule example_draws_Suc(4))
  show "nth_draw example_env 10 4 = 17" unfolding n(4) by (rule example_draws_Suc(5))
  show "nth_draw example_env 10 5 = 54" unfolding n(5) by (rule example_draws_Suc(6))
qed

section \<open>The model cache\<close>

text \<open>
  C2, as claimed: a new handle is constructed whenever the supplied configuration
  differs from the one the cached handle was built from. It is not: after a first run
  with \<open>a.yaml\<close> the handle is built from that file's configuration; a second run with
  the parameter changed to \<open>b.yaml\<close>, a file with another configuration, and the update
  flag not set, neither reads the file nor rebuilds, and the cached handle stays.
\<close>

theorem changed_configuration_keeps_cached_model:
  "model state_after_first_run = Some example_model
   \<and> built_from example_model = example_cfg
   \<and> open_yaml example_env ''b.yaml'' = Some other_cfg
   \<and> other_cfg \<noteq> example_cfg
   \<and> model (snd (run example_env (Some (white_image [3, 3, 3]))
                     (state_after_first_run\<lparr>configFile := ''b.yaml''\<rparr>)))
       = Some example_model"
proof -
  let ?s = "state_after_first_run\<lparr>configFile := ''b.yaml''\<rparr>"
  obtain e s' where r: "run example_env (Some (white_image [3, 3, 3])) ?s = (e, s')"
    by (cases "run example_env (Some (white_image [3, 3, 3])) ?s")
  have "model s' = Some example_model"
    using run_without_update_keeps_model [OF r, of example_model] first_run_model by simp
  then show ?thesis
    using first_run_model r
    by (simp add: example_env_def example_model_def example_cfg_def other_cfg_def)
qed

text \<open>
  C2, amended: the only thing that invalidates the cache is the update flag. After a run
  that completed with a configuration loaded, a handle \<open>h\<close> is cached. A following run
  without the flag keeps \<open>h\<close> and constructs nothing, whatever the configuration file, the
  weight path and the world are by then. A following run with the flag, unless reading
  the configuration or constructing the network fails, caches a newly constructed handle,
  different from \<open>h\<close> and built from the configuration now loaded.
\<close>

theorem model_cache_reuse_and_rebuild:
  assumes first: "run E img1 s0 = (None, s1)" and conf: "cfg s1 \<noteq> None"
    and inv: "\<forall>h0. model s0 = Some h0 \<longrightarrow> ident h0 < next_ident s0"
    and second: "run E' img2 (s1\<lparr>configFile := cf, modelFile := mf, update := force\<rparr>) = (e2, s2)"
  shows "\<exists>h. model s1 = Some h
           \<and> (\<not> force \<longrightarrow> model s2 = Some h \<and> next_ident s2 = next_ident s1)
           \<and> (force \<and> e2 \<noteq> Some ConfigLoadError \<and> e2 \<noteq> Some ModelBuildError \<longrightarrow>
                (\<exists>h'. model s2 = Some h' \<and> h' \<noteq> h \<and> ident h' = next_ident s1
                   \<and> cfg s2 = Some (built_from h') \<and> next_ident s2 = Suc (next_ident s1)))"
proof -
  let ?s = "s1\<lparr>configFile := cf, modelFile := mf, update := force\<rparr>"
  obtain h where h: "model s1 = Some h"
    using run_with_config_has_model [OF first conf] by auto
  have old: "ident h < next_ident s1"
    using run_idents [OF first inv] h by simp
  have keep: "model s2 = Some h \<and> next_ident s2 = next_ident s1" if "\<not> force"
    using run_without_update_keeps_model [OF second, of h] h that by simp
  have new: "\<exists>h'. model s2 = Some h' \<and> h' \<noteq> h \<and> ident h' = next_ident s1
                   \<and> cfg s2 = Some (built_from h') \<and> next_ident s2 = Suc (next_ident s1)"
    if frc: "force" and nce: "e2 \<noteq> Some ConfigLoadError" and nbe: "e2 \<noteq> Some ModelBuildError"
  proof -
    have c2: "cfg s2 \<noteq> None"
      using run_keeps_config [OF second] conf by simp
    have u: "update ?s"
      using frc by simp
    obtain h' where h': "model s2 = Some h'" "ident h' = next_ident ?s"
        "cfg s2 = Some (built_from h')" "next_ident s2 = Suc (next_ident ?s)"
      using run_with_update_new_handle [OF second u c2 nce nbe] by auto
    have "h' \<noteq> h" using old h'(2) by auto
    then show ?thesis using h' by simp
  qed
  show ?thesis using h keep new by blast
qed

theorem model_cache_reuse_and_rebuild_witness:
  "\<exists>h. model state_after_first_run = Some h
     \<and> model (snd (run example_env (Some (white_image [3, 3, 3]))
          (state_after_first_run\<lparr>configFile := ''a.yaml'', modelFile := ''weights.pth'',
             update := False\<rparr>))) = Some h
     \<and> (\<exists>h'. model (snd (run example_env (Some (white_image [3, 3, 3]))
          (state_after_first_run\<lparr>configFile := ''a.yaml'', modelFile := ''weights.pth'',
             update := True\<rparr>))) = Some h' \<and> h' \<noteq> h)"
proof -
  let ?img = "Some (white_image [3, 3, 3])"
  let ?keep = "state_after_first_run\<lparr>configFile := ''a.yaml'', modelFile := ''weights.pth'',
             update := False\<rparr>"
  let ?force = "state_after_first_run\<lparr>configFile := ''a.yaml'', modelFile := ''weights.pth'',
             update := True\<rparr>"
  have conf: "cfg state_after_first_run \<noteq> None"
    using first_run_config by simp
  have inv: "\<forall>h0. model (initial_state\<lparr>configFile := ''a.yaml'', modelFile := ''weights.pth''\<rparr>)
        = Some h0 \<longrightarrow> ident h0
          < next_ident (initial_state\<lparr>configFile := ''a.yaml'', modelFile := ''weights.pth''\<rparr>)"
    by (simp add: initial_state_def)
  have completes: "fst (run example_env ?img ?force) = None"
    by (rule example_env_runs) simp_all
  have a: "run example_env ?img ?keep = (fst (run example_env ?img ?keep), snd (run example_env ?img ?keep))"
    by simp
  have b: "run example_env ?img ?force = (fst (run example_env ?img ?force), snd (run example_env ?img ?force))"
    by simp
  show ?thesis
    using model_cache_reuse_and_rebuild [OF first_run conf inv a]
      model_cache_reuse_and_rebuild [OF first_run conf inv b] completes
    by auto
qed

text \<open>
  C3, as claimed: a failed build leaves the previously cached handle in place. It does
  not when the weights fail to load: with a valid handle cached, a reload whose weight
  file exists but does not fit ends in WeightLoadError and leaves the newly constructed
  network cached, without weights and not in inference mode.
\<close>

theorem weight_load_failure_replaces_cached_model:
  "model reload_with_broken_weights = Some example_model
   \<and> fst (run example_env None reload_with_broken_weights) = Some WeightLoadError
   \<and> model (snd (run example_env None reload_with_broken_weights))
       = Some \<lparr>ident = 1, built_from = example_cfg, on_cuda = False,
               weights = None, eval_mode = False\<rparr>"
  by (simp add: reload_with_broken_weights_def initial_state_def example_env_def run_def
      load_config_step_def build_model_step_def example_cfg_def Let_def)

text \<open>
  C3, amended: when reading the configuration or constructing the network fails, the
  cached handle is the one cached before the run. When loading the weights fails, the
  network constructed in this run has already replaced it: the cache then holds the new
  handle, built from the loaded configuration, with no weights loaded and not in
  inference mode.
\<close>

theorem failed_build_and_model_cache:
  assumes "run E img s = (Some err, s')"
  shows "(err = ConfigLoadError \<or> err = ModelBuildError \<longrightarrow> model s' = model s)
         \<and> (err = WeightLoadError \<longrightarrow>
              (\<exists>c. cfg s' = Some c
                 \<and> model s' = Some \<lparr>ident = next_ident s, built_from = c,
                        on_cuda = cuda_is_available E, weights = None, eval_mode = False\<rparr>))"
  using assms
proof (cases rule: run_cases)
  case config_error
  then show ?thesis by simp
next
  case (build_error s1 b)
  have f: "model s1 = model s \<and> next_ident s1 = next_ident s"
    using load_config_step_frame [OF build_error(1)] by simp
  have g: "cfg s' = cfg s1"
    using build_model_step_frame [OF build_error(2)] by simp
  show ?thesis
    using build_model_step_error [OF build_error(2)] build_error(3) f g by auto
next
  case (no_output s1)
  then show ?thesis by simp
next
  case (full_run s1 s2 m i)
  then show ?thesis using output_step_error [OF full_run(5)] by auto
qed

theorem failed_build_and_model_cache_witness:
  "model (snd (run example_env None reload_with_broken_weights))
     = Some \<lparr>ident = 1, built_from = example_cfg, on_cuda = False, weights = None, eval_mode = False\<rparr>
   \<and> model (snd (run example_env None (reload_with_broken_weights\<lparr>configFile := ''missing.yaml''\<rparr>)))
     = Some example_model"
proof -
  have a: "run example_env None reload_with_broken_weights
        = (Some WeightLoadError, snd (run example_env None reload_with_broken_weights))"
    by (simp add: reload_with_broken_weights_def initial_state_def example_env_def run_def
      load_config_step_def build_model_step_def example_cfg_def Let_def)
  have b: "run example_env None (reload_with_broken_weights\<lparr>configFile := ''missing.yaml''\<rparr>)
        = (Some ConfigLoadError,
           snd (run example_env None (reload_with_broken_weights\<lparr>configFile := ''missing.yaml''\<rparr>)))"
    by (simp add: reload_with_broken_weights_def initial_state_def example_env_def run_def
      load_config_step_def build_model_step_def example_cfg_def Let_def)
  show ?thesis
    using failed_build_and_model_cache [OF a] failed_build_and_model_cache [OF b]
    by (simp add: reload_with_broken_weights_def initial_state_def example_env_def run_def
      load_config_step_def build_model_step_def example_cfg_def Let_def)
qed

section \<open>The colour map\<close>

text \<open>
  C7. Every run seeds the generator with 10 before anything draws from it, and the colour
  map is built at most once in a run. So two runs that build the colour map for the same
  number of class names get the same sequence, whatever states they start in. Entry 0 is
  \<open>[0, 0, 0]\<close>; entry \<open>i \<ge> 1\<close> holds the draws number \<open>3 * (i - 1)\<close>,
  \<open>3 * (i - 1) + 1\<close> and \<open>3 * (i - 1) + 2\<close> of the generator seeded with 10, followed by
  255: the entries take their numbers from the generator one after the other in
  class-index order.
\<close>

theorem color_map_deterministic:
  assumes ra: "run E (Some ia) sa = (None, sa')" and ma: "model sa' \<noteq> None"
    and ba: "colors sa = None \<or> update sa" and na: "classes sa' = Some nsa"
    and rb: "run E (Some ib) sb = (None, sb')" and mb: "model sb' \<noteq> None"
    and bb: "colors sb = None \<or> update sb" and nb: "classes sb' = Some nsb"
    and len: "length nsa = length nsb"
  shows "\<exists>cs. colors sa' = Some cs \<and> colors sb' = Some cs \<and> cs ! 0 = [0, 0, 0]
           \<and> length cs = max 1 (length nsa)
           \<and> (\<forall>i. 1 \<le> i \<and> i < length nsa \<longrightarrow>
                cs ! i = [nth_draw E (random_seed E 10) (3 * (i - 1)),
                          nth_draw E (random_seed E 10) (3 * (i - 1) + 1),
                          nth_draw E (random_seed E 10) (3 * (i - 1) + 2), 255])"
proof -
  let ?cs = "fst (build_colors E (length nsa) (random_seed E 10))"
  have a: "colors sa' = Some ?cs"
    by (rule run_colors [OF ra ma ba na])
  have b: "colors sb' = Some ?cs"
    using run_colors [OF rb mb bb nb] len by simp
  have l: "length ?cs = max 1 (length nsa)"
    using build_colors_length [of E "length nsa" "random_seed E 10"] by (cases nsa) auto
  show ?thesis
    using a b l build_colors_first [of E "length nsa" "random_seed E 10"]
      build_colors_nth [of _ "length nsa" E "random_seed E 10"]
    by auto
qed

theorem color_map_deterministic_witness:
  "\<exists>cs. colors state_after_first_run = Some cs
     \<and> colors (snd (run example_env (Some (white_image [3, 3, 3]))
          (reload_with_broken_weights\<lparr>modelFile := ''weights.pth'', rng := 77\<rparr>))) = Some cs
     \<and> cs ! 0 = [0, 0, 0] \<and> length cs = 3
     \<and> cs ! 1 = [125, 162, 199, 255] \<and> cs ! 2 = [236, 17, 54, 255]"
proof -
  let ?img = "Some (white_image [3, 3, 3])"
  let ?sb = "reload_with_broken_weights\<lparr>modelFile := ''weights.pth'', rng := 77\<rparr>"
  have ma: "model state_after_first_run \<noteq> None"
    using first_run_model by simp
  have ba: "colors (initial_state\<lparr>configFile := ''a.yaml'', modelFile := ''weights.pth''\<rparr>) = None
      \<or> update (initial_state\<lparr>configFile := ''a.yaml'', modelFile := ''weights.pth''\<rparr>)"
    by (simp add: initial_state_def)
  have na: "classes state_after_first_run = Some [''bg'', ''cat'', ''dog'']"
    using first_run_config by simp
  have "fst (run example_env ?img ?sb) = None"
    by (rule example_env_runs) (simp_all add: reload_with_broken_weights_def)
  then have rb: "run example_env ?img ?sb = (None, snd (run example_env ?img ?sb))"
    by (simp add: prod_eq_iff)
  have cb: "cfg (snd (run example_env ?img ?sb)) = Some example_cfg
      \<and> classes (snd (run example_env ?img ?sb)) = Some [''bg'', ''cat'', ''dog'']"
    using run_reloads_config [OF rb]
    by (simp add: reload_with_broken_weights_def example_env_def example_cfg_fields)
  have mb: "model (snd (run example_env ?img ?sb)) \<noteq> None"
    using run_with_config_has_model [OF rb] cb by simp
  have bb: "colors ?sb = None \<or> update ?sb"
    by (simp add: reload_with_broken_weights_def)
  have nb: "classes (snd (run example_env ?img ?sb)) = Some [''bg'', ''cat'', ''dog'']"
    using cb by simp
  obtain cs where cs: "colors state_after_first_run = Some cs"
      "colors (snd (run example_env ?img ?sb)) = Some cs" "cs ! 0 = [0, 0, 0]"
      "length cs = max 1 (length [''bg'', ''cat'', ''dog''])"
      "\<forall>i. 1 \<le> i \<and> i < length [''bg'', ''cat'', ''dog''] \<longrightarrow>
         cs ! i = [nth_draw example_env (random_seed example_env 10) (3 * (i - 1)),
                   nth_draw example_env (random_seed example_env 10) (3 * (i - 1) + 1),
                   nth_draw example_env (random_seed example_env 10) (3 * (i - 1) + 2), 255]"
    using color_map_deterministic [OF first_run ma ba na rb mb bb nb] by auto
  have c1: "cs ! 1 = [125, 162, 199, 255]"
    using cs(5) [rule_format, of 1]
    by (simp add: example_seed example_draws example_draws_Suc del: nth_draw.simps)
  have c2: "cs ! 2 = [236, 17, 54, 255]"
    using cs(5) [rule_format, of 2]
    by (simp add: example_seed example_draws example_draws_Suc del: nth_draw.simps)
  have len: "length cs = 3"
    using cs(4) by simp
  show ?thesis
    using cs(1,2,3) len c1 c2 by blast
qed

section \<open>The update flag\<close>

lemma run_without_image_keeps_colors:
  assumes "run E None s = (e, s')"
  shows "colors s' = colors s"
  using assms
proof (cases rule: run_cases)
  case config_error
  then show ?thesis by simp
next
  case (build_error s1 b)
  then show ?thesis
    using load_config_step_frame [OF build_error(1)] build_model_step_frame [OF build_error(2)]
    by simp
next
  case (no_output s1)
  then show ?thesis
    using load_config_step_frame [OF no_output(1)] build_model_step_frame [OF no_output(2)]
    by simp
next
  case (full_run s1 s2 m i)
  then show ?thesis by simp
qed

text \<open>
  C10, as claimed: whenever the flag stays set, the configuration, the model and the
  colour map are all rebuilt on the next run. The colour map is not when the next run has
  no image either: after two runs without an image, the flag set throughout, no colour map
  has been built.
\<close>

theorem runs_without_image_never_rebuild_colors:
  "update (snd (run example_env None
       (initial_state\<lparr>configFile := ''a.yaml'', modelFile := ''weights.pth'', update := True\<rparr>)))
   \<and> update (snd (run example_env None (snd (run example_env None
       (initial_state\<lparr>configFile := ''a.yaml'', modelFile := ''weights.pth'', update := True\<rparr>)))))
   \<and> colors (snd (run example_env None (snd (run example_env None
       (initial_state\<lparr>configFile := ''a.yaml'', modelFile := ''weights.pth'', update := True\<rparr>)))))
       = None"
proof -
  let ?s = "initial_state\<lparr>configFile := ''a.yaml'', modelFile := ''weights.pth'', update := True\<rparr>"
  let ?s1 = "snd (run example_env None ?s)"
  let ?s2 = "snd (run example_env None ?s1)"
  have r1: "run example_env None ?s = (fst (run example_env None ?s), ?s1)" by simp
  have r2: "run example_env None ?s1 = (fst (run example_env None ?s1), ?s2)" by simp
  have u1: "update ?s1"
    using run_update_flag [OF r1] by simp
  have u2: "update ?s2"
    using run_update_flag [OF r2 u1] by simp
  have "colors ?s2 = colors ?s"
    using run_without_image_keeps_colors [OF r1] run_without_image_keeps_colors [OF r2] by simp
  then have c: "colors ?s2 = None"
    by (simp add: initial_state_def)
  show ?thesis using u1 u2 c by simp
qed

text \<open>
  C10, amended: in a run that starts with the update flag set, the flag is cleared only if
  the run completes with a model cached and a source image present. If the run raises,
  ends without a model or has no image, the flag stays set, and the next run then reads
  the configuration file again if a file is named, constructs a new model handle if a
  configuration is loaded, and builds the colour map again and clears the flag only if it
  completes with a model and an image.
\<close>

theorem update_flag_cleared_only_after_full_run:
  assumes r: "run E img s = (e, s')" and u: "update s" and r2: "run E' img2 s' = (e2, s2)"
  shows "(\<not> update s' \<longrightarrow> e = None \<and> model s' \<noteq> None \<and> img \<noteq> None)
       \<and> (e \<noteq> None \<or> model s' = None \<or> img = None \<longrightarrow>
            update s'
            \<and> (configFile s' \<noteq> [] \<and> e2 \<noteq> Some ConfigLoadError \<longrightarrow>
                 cfg s2 = open_yaml E' (configFile s') \<and> cfg s2 \<noteq> None)
            \<and> (cfg s2 \<noteq> None \<and> e2 \<noteq> Some ConfigLoadError \<and> e2 \<noteq> Some ModelBuildError \<longrightarrow>
                 (\<exists>h. model s2 = Some h \<and> ident h = next_ident s' \<and> cfg s2 = Some (built_from h)))
            \<and> (e2 = None \<and> model s2 \<noteq> None \<and> img2 \<noteq> None \<longrightarrow>
                 \<not> update s2
                 \<and> (\<forall>ns. classes s2 = Some ns \<longrightarrow>
                       colors s2 = Some (fst (build_colors E' (length ns) (random_seed E' 10))))))"
proof -
  have flag: "update s' \<longleftrightarrow> (e \<noteq> None \<or> model s' = None \<or> img = None)"
    by (rule run_update_flag [OF r u])
  have next_run: "(configFile s' \<noteq> [] \<and> e2 \<noteq> Some ConfigLoadError \<longrightarrow>
                 cfg s2 = open_yaml E' (configFile s') \<and> cfg s2 \<noteq> None)
            \<and> (cfg s2 \<noteq> None \<and> e2 \<noteq> Some ConfigLoadError \<and> e2 \<noteq> Some ModelBuildError \<longrightarrow>
                 (\<exists>h. model s2 = Some h \<and> ident h = next_ident s' \<and> cfg s2 = Some (built_from h)))
            \<and> (e2 = None \<and> model s2 \<noteq> None \<and> img2 \<noteq> None \<longrightarrow>
                 \<not> update s2
                 \<and> (\<forall>ns. classes s2 = Some ns \<longrightarrow>
                       colors s2 = Some (fst (build_colors E' (length ns) (random_seed E' 10)))))"
    if u': "update s'"
  proof (intro conjI impI allI)
    assume a: "configFile s' \<noteq> [] \<and> e2 \<noteq> Some ConfigLoadError"
    then obtain c where "open_yaml E' (configFile s') = Some c \<and> cfg s2 = Some c"
      using run_reloads_config [OF r2] u' by blast
    then show "cfg s2 = open_yaml E' (configFile s')" and "cfg s2 \<noteq> None" by auto
  next
    assume "cfg s2 \<noteq> None \<and> e2 \<noteq> Some ConfigLoadError \<and> e2 \<noteq> Some ModelBuildError"
    then show "\<exists>h. model s2 = Some h \<and> ident h = next_ident s' \<and> cfg s2 = Some (built_from h)"
      using run_with_update_new_handle [OF r2 u'] by blast
  next
    assume a: "e2 = None \<and> model s2 \<noteq> None \<and> img2 \<noteq> None"
    then show "\<not> update s2"
      using run_update_flag [OF r2 u'] by simp
  next
    fix ns
    assume a: "e2 = None \<and> model s2 \<noteq> None \<and> img2 \<noteq> None" and ns: "classes s2 = Some ns"
    then obtain i2 where "img2 = Some i2" by auto
    then show "colors s2 = Some (fst (build_colors E' (length ns) (random_seed E' 10)))"
      using run_colors [of E' i2 s' s2 ns] r2 a ns u' by simp
  qed
  have cleared: "\<not> update s' \<longrightarrow> e = None \<and> model s' \<noteq> None \<and> img \<noteq> None"
    using flag by simp
  have kept: "e \<noteq> None \<or> model s' = None \<or> img = None \<longrightarrow>
            update s'
            \<and> (configFile s' \<noteq> [] \<and> e2 \<noteq> Some ConfigLoadError \<longrightarrow>
                 cfg s2 = open_yaml E' (configFile s') \<and> cfg s2 \<noteq> None)
            \<and> (cfg s2 \<noteq> None \<and> e2 \<noteq> Some ConfigLoadError \<and> e2 \<noteq> Some ModelBuildError \<longrightarrow>
                 (\<exists>h. model s2 = Some h \<and> ident h = next_ident s' \<and> cfg s2 = Some (built_from h)))
            \<and> (e2 = None \<and> model s2 \<noteq> None \<and> img2 \<noteq> None \<longrightarrow>
                 \<not> update s2
                 \<and> (\<forall>ns. classes s2 = Some ns \<longrightarrow>
                       colors s2 = Some (fst (build_colors E' (length ns) (random_seed E' 10)))))"
  proof
    assume "e \<noteq> None \<or> model s' = None \<or> img = None"
    then have u': "update s'" using flag by simp
    show "update s' \<and> (configFile s' \<noteq> [] \<and> e2 \<noteq> Some ConfigLoadError \<longrightarrow>
                 cfg s2 = open_yaml E' (configFile s') \<and> cfg s2 \<noteq> None)
            \<and> (cfg s2 \<noteq> None \<and> e2 \<noteq> Some ConfigLoadError \<and> e2 \<noteq> Some ModelBuildError \<longrightarrow>
                 (\<exists>h. model s2 = Some h \<and> ident h = next_ident s' \<and> cfg s2 = Some (built_from h)))
            \<and> (e2 = None \<and> model s2 \<noteq> None \<and> img2 \<noteq> None \<longrightarrow>
                 \<not> update s2
                 \<and> (\<forall>ns. classes s2 = Some ns \<longrightarrow>
                       colors s2 = Some (fst (build_colors E' (length ns) (random_seed E' 10)))))"
      using u' next_run [OF u'] by (rule conjI)
  qed
  show ?thesis using cleared kept by (rule conjI)
qed

theorem update_flag_cleared_only_after_full_run_witness:
  "update (snd (run example_env None
       (initial_state\<lparr>configFile := ''a.yaml'', modelFile := ''weights.pth'', update := True\<rparr>)))
   \<and> \<not> update (snd (run example_env (Some (white_image [3, 3, 3]))
       (snd (run example_env None
         (initial_state\<lparr>configFile := ''a.yaml'', modelFile := ''weights.pth'', update := True\<rparr>)))))
   \<and> cfg (snd (run example_env (Some (white_image [3, 3, 3]))
       (snd (run example_env None
         (initial_state\<lparr>configFile := ''a.yaml'', modelFile := ''weights.pth'', update := True\<rparr>)))))
       = Some example_cfg"
proof -
  let ?s = "initial_state\<lparr>configFile := ''a.yaml'', modelFile := ''weights.pth'', update := True\<rparr>"
  let ?s' = "snd (run example_env None ?s)"
  let ?img = "Some (white_image [3, 3, 3])"
  have r: "run example_env None ?s = (fst (run example_env None ?s), ?s')"
    by simp
  have u: "update ?s" by simp
  have p: "configFile ?s' = ''a.yaml'' \<and> modelFile ?s' = ''weights.pth''"
    using run_parameters [OF r] by simp
  have u': "update ?s'"
    using run_update_flag [OF r u] by simp
  have e2: "fst (run example_env ?img ?s') = None"
    using p u' by (intro example_env_runs) simp_all
  then have r2: "run example_env ?img ?s' = (None, snd (run example_env ?img ?s'))"
    by (simp add: prod_eq_iff)
  have c2: "cfg (snd (run example_env ?img ?s')) = Some example_cfg"
    using run_reloads_config [OF r2] u' p by (simp add: example_env_def)
  then have m2: "model (snd (run example_env ?img ?s')) \<noteq> None"
    using run_with_config_has_model [OF r2] by simp
  show ?thesis
    using update_flag_cleared_only_after_full_run [OF r u r2] c2 m2 by simp
qed

end
